theory Spec2Isabelle
  imports Complex_Main "HOL-Library.Multiset" "HOL-Library.Word" "HOL-Library.Log_Nat"
begin

section \<open>Python values used by the proctoring backend\<close>

text \<open>
  Exceptions of the Python code are values: a function that can raise returns
  \<open>py_error + 'a\<close>, with \<open>Inl\<close> for the exception.
\<close>

datatype py_error =
    KeyError
  | IndexError
  | ValueError
  | TypeError
  | ValidationError
  | FileNotFoundError
  | IsADirectoryError
  | NotADirectoryError
  | FileExistsError
  | AssertionError
  | DuplicateKeyError

text \<open>
  A Python \<open>dict\<close> keeps its keys in insertion order, so it is an association list; a
  well-formed dict has distinct keys. \<open>dict_contains\<close> is \<open>k in d\<close>, \<open>dict_get\<close> is
  \<open>d.get(k, default)\<close>, \<open>dict_getitem\<close> is \<open>d[k]\<close> (raising \<open>KeyError\<close>), and
  \<open>dict_setitem\<close> is \<open>d[k] = v\<close>: an existing key keeps its position, a new key is
  appended.
\<close>

type_synonym ('k, 'v) dict = "('k \<times> 'v) list"

definition dict_contains :: "'k \<Rightarrow> ('k, 'v) dict \<Rightarrow> bool" where
  "dict_contains k d = (map_of d k \<noteq> None)"

definition dict_get :: "('k, 'v) dict \<Rightarrow> 'k \<Rightarrow> 'v \<Rightarrow> 'v" where
  "dict_get d k dflt = (case map_of d k of None \<Rightarrow> dflt | Some v \<Rightarrow> v)"

definition dict_getitem :: "('k, 'v) dict \<Rightarrow> 'k \<Rightarrow> py_error + 'v" where
  "dict_getitem d k = (case map_of d k of None \<Rightarrow> Inl KeyError | Some v \<Rightarrow> Inr v)"

fun dict_setitem :: "'k \<Rightarrow> 'v \<Rightarrow> ('k, 'v) dict \<Rightarrow> ('k, 'v) dict" where
  "dict_setitem k v [] = [(k, v)]"
| "dict_setitem k v ((k', v') # d) =
     (if k' = k then (k, v) # d else (k', v') # dict_setitem k v d)"

text \<open>
  A \<open>datetime\<close> is a count of microseconds (the resolution of Python's \<open>datetime\<close>); the
  difference of two datetimes, a \<open>timedelta\<close>, is a count of microseconds too.
\<close>

type_synonym datetime = int
type_synonym timedelta = int

section \<open>models.py\<close>

record Event =
  event_id :: "string option"
  event_session_id :: string
  event_type :: string
  event_message :: "string option"
  event_timestamp :: datetime

record Session =
  session_id :: "string option"
  candidate_name :: string
  start_time :: datetime
  end_time :: "datetime option"
  video_path :: "string option"

section \<open>report.py\<close>

definition EVENT_WEIGHTS :: "(string, int) dict" where
  "EVENT_WEIGHTS =
     [(''focus_lost'', 2),
      (''looking_away'', 2),
      (''no_face'', 5),
      (''multiple_faces'', 10),
      (''phone_detected'', 10),
      (''notes_detected'', 5),
      (''device_detected'', 8)]"

text \<open>The dict literal that \<open>summarize_events\<close> starts from.\<close>

definition initial_counts :: "(string, int) dict" where
  "initial_counts =
     [(''focus_lost'', 0),
      (''looking_away'', 0),
      (''no_face'', 0),
      (''multiple_faces'', 0),
      (''phone_detected'', 0),
      (''notes_detected'', 0),
      (''device_detected'', 0)]"

text \<open>
  One pass of the loop body of \<open>summarize_events\<close>:
  \<^verbatim>\<open>key = e.event_type if e.event_type in counts else None\<close>, then
  \<^verbatim>\<open>if key: counts[key] += 1\<close>. The test \<open>if key\<close> is Python truthiness: \<open>None\<close> and the
  empty string are both false.
\<close>

definition summarize_step :: "(string, int) dict \<Rightarrow> Event \<Rightarrow> py_error + (string, int) dict" where
  "summarize_step counts e =
     (let key = (if dict_contains (event_type e) counts then Some (event_type e) else None)
      in case key of
           None \<Rightarrow> Inr counts
         | Some k \<Rightarrow>
             if k = [] then Inr counts
             else (case dict_getitem counts k of
                     Inl err \<Rightarrow> Inl err
                   | Inr v \<Rightarrow> Inr (dict_setitem k (v + 1) counts)))"

fun summarize_loop :: "(string, int) dict \<Rightarrow> Event list \<Rightarrow> py_error + (string, int) dict" where
  "summarize_loop counts [] = Inr counts"
| "summarize_loop counts (e # events) =
     (case summarize_step counts e of
        Inl err \<Rightarrow> Inl err
      | Inr counts' \<Rightarrow> summarize_loop counts' events)"

definition summarize_events :: "Event list \<Rightarrow> py_error + (string, int) dict" where
  "summarize_events events = summarize_loop initial_counts events"

text \<open>
  \<open>compute_integrity_score\<close>: the loop over \<open>counts.items()\<close> with the running
  \<open>score\<close>, then \<open>max(0, score)\<close>.
\<close>

fun score_loop :: "int \<Rightarrow> (string \<times> int) list \<Rightarrow> int" where
  "score_loop score [] = score"
| "score_loop score ((k, v) # items) =
     score_loop (score - v * dict_get EVENT_WEIGHTS k 0) items"

definition compute_integrity_score :: "(string, int) dict \<Rightarrow> int" where
  "compute_integrity_score counts = max 0 (score_loop 100 counts)"

text \<open>
  \<open>timedelta.total_seconds()\<close> is the quotient of the microseconds by \<open>10**6\<close>, a
  division of two integers that Python rounds to the nearest double, ties to even.
  For \<open>a\<close> microseconds, \<open>a > 0\<close>, \<open>seconds_exponent a\<close> is the binary exponent \<open>e\<close> of
  the quotient, \<open>2**e <= a / 10**6 < 2**(e + 1)\<close>, found as a bit length like
  \<open>int.bit_length\<close>; the double has 53 significant bits, so it is the quotient rounded
  to a multiple of \<open>2**(e - 52)\<close>. \<open>round_half_even_div n d\<close> is \<open>n / d\<close> rounded to
  the nearest integer, ties to even. A double is kept as the real number it stands
  for. \<open>py_int\<close> is \<open>int\<close> of a float: the fractional part is dropped, rounding
  toward zero.
\<close>

definition round_half_even_div :: "int \<Rightarrow> int \<Rightarrow> int" where
  "round_half_even_div n d =
     (let q = n div d; r = n mod d
      in if 2 * r < d then q else if d < 2 * r then q + 1 else if even q then q else q + 1)"

definition seconds_exponent :: "int \<Rightarrow> int" where
  "seconds_exponent a = bitlen (a * 2 ^ 20 div 1000000) - 21"

definition total_seconds :: "timedelta \<Rightarrow> real" where
  "total_seconds td =
     (if td = 0 then 0
      else
        let a = \<bar>td\<bar>;
            e = seconds_exponent a
        in if e \<le> 52
           then of_int (sgn td * round_half_even_div (a * 2 ^ nat (52 - e)) 1000000)
                  / 2 ^ nat (52 - e)
           else of_int (sgn td * round_half_even_div a (1000000 * 2 ^ nat (e - 52))
                  * 2 ^ nat (e - 52)))"

definition py_int :: "real \<Rightarrow> int" where
  "py_int x = (if 0 \<le> x then \<lfloor>x\<rfloor> else \<lceil>x\<rceil>)"

text \<open>
  The duration shown by \<open>write_html_report\<close>:
  \<^verbatim>\<open>duration_seconds = 0\<close>, then
  \<^verbatim>\<open>if session.end_time and session.start_time:\<close>
  \<^verbatim>\<open>    duration_seconds = int((session.end_time - session.start_time).total_seconds())\<close>.
  A \<open>datetime\<close> object is always true in a condition; \<open>None\<close> is false.
\<close>

definition write_html_report_duration_seconds :: "Session \<Rightarrow> int" where
  "write_html_report_duration_seconds session =
     (case end_time session of
        None \<Rightarrow> 0
      | Some e \<Rightarrow> py_int (total_seconds (e - start_time session)))"

section \<open>storage.py\<close>

subsection \<open>Strings, bytes and paths\<close>

type_synonym bytes = "8 word list"

text \<open>\<open>s.startswith(p)\<close>, \<open>s.split(c, 1)\<close>, \<open>s.split(c)\<close>, \<open>xs[i]\<close> and \<open>sep.join(xs)\<close>.\<close>

definition startswith :: "string \<Rightarrow> string \<Rightarrow> bool" where
  "startswith s p = (take (length p) s = p)"

definition split1 :: "char \<Rightarrow> string \<Rightarrow> string list" where
  "split1 c s =
     (if c \<in> set s
      then [takeWhile (\<lambda>x. x \<noteq> c) s, tl (dropWhile (\<lambda>x. x \<noteq> c) s)]
      else [s])"

fun split_all :: "char \<Rightarrow> string \<Rightarrow> string list" where
  "split_all c [] = [[]]"
| "split_all c (x # xs) =
     (if x = c then [] # split_all c xs
      else (case split_all c xs of
              [] \<Rightarrow> [[x]]
            | w # ws \<Rightarrow> (x # w) # ws))"

definition list_getitem :: "'a list \<Rightarrow> nat \<Rightarrow> py_error + 'a" where
  "list_getitem xs i = (if i < length xs then Inr (xs ! i) else Inl IndexError)"

fun join_sep :: "string \<Rightarrow> string list \<Rightarrow> string" where
  "join_sep sep [] = []"
| "join_sep sep [x] = x"
| "join_sep sep (x # y # ys) = x @ sep @ join_sep sep (y # ys)"

text \<open>
  A \<open>pathlib\<close> path on POSIX: the root (empty for a relative path, \<open>/\<close>, or \<open>//\<close> when
  the text starts with exactly two slashes) and the components, where empty components
  and \<open>.\<close> are dropped on parsing. \<open>Path_of s\<close> is \<open>Path(s)\<close>, \<open>truediv p s\<close> is \<open>p / s\<close>
  (an absolute right-hand side replaces the left-hand side), \<open>Path_str p\<close> is \<open>str(p)\<close>
  and \<open>Path_parent p\<close> is \<open>p.parent\<close>.
\<close>

record Path =
  path_root :: string
  path_parts :: "string list"

definition posix_root :: "string \<Rightarrow> string" where
  "posix_root s =
     (if \<not> startswith s ''/'' then []
      else if startswith s ''//'' \<and> \<not> startswith s ''///'' then ''//''
      else ''/'')"

definition Path_of :: "string \<Rightarrow> Path" where
  "Path_of s =
     \<lparr>path_root = posix_root s,
      path_parts = filter (\<lambda>c. c \<noteq> [] \<and> c \<noteq> ''.'') (split_all CHR ''/'' s)\<rparr>"

definition truediv :: "Path \<Rightarrow> string \<Rightarrow> Path" where
  "truediv p s =
     (if startswith s ''/'' then Path_of s
      else p\<lparr>path_parts := path_parts p @ path_parts (Path_of s)\<rparr>)"

definition Path_str :: "Path \<Rightarrow> string" where
  "Path_str p =
     (if path_root p = [] \<and> path_parts p = [] then ''.''
      else path_root p @ join_sep ''/'' (path_parts p))"

definition Path_parent :: "Path \<Rightarrow> Path" where
  "Path_parent p = p\<lparr>path_parts := butlast (path_parts p)\<rparr>"

subsection \<open>The file system\<close>

text \<open>
  The file system the local backend writes to: the directories that exist and the
  content of every regular file, both by path. The working directory is fixed, and two
  different paths name two different files (no symbolic links, and \<open>..\<close> is an
  ordinary component). \<open>os_mkdir\<close> is \<open>os.mkdir\<close>; \<open>Path_mkdir\<close> is
  \<open>Path.mkdir(parents=True, exist_ok=True)\<close>, which creates the missing ancestors and
  accepts a directory that is already there; \<open>write_bytes\<close> and \<open>read_bytes\<close> are the
  methods of \<open>Path\<close>.
\<close>

record FileSystem =
  fs_dirs :: "Path set"
  fs_files :: "Path \<rightharpoonup> bytes"

definition os_mkdir :: "Path \<Rightarrow> FileSystem \<Rightarrow> py_error + FileSystem" where
  "os_mkdir p fs =
     (if p \<in> fs_dirs fs \<or> fs_files fs p \<noteq> None then Inl FileExistsError
      else if fs_files fs (Path_parent p) \<noteq> None then Inl NotADirectoryError
      else if Path_parent p \<notin> fs_dirs fs then Inl FileNotFoundError
      else Inr (fs\<lparr>fs_dirs := insert p (fs_dirs fs)\<rparr>))"

definition mkdir_exist_ok :: "Path \<Rightarrow> FileSystem \<Rightarrow> py_error + FileSystem" where
  "mkdir_exist_ok p fs =
     (case os_mkdir p fs of
        Inr fs' \<Rightarrow> Inr fs'
      | Inl FileNotFoundError \<Rightarrow> Inl FileNotFoundError
      | Inl err \<Rightarrow> if p \<in> fs_dirs fs then Inr fs else Inl err)"

function Path_mkdir :: "Path \<Rightarrow> FileSystem \<Rightarrow> py_error + FileSystem" where
  "Path_mkdir p fs =
     (case os_mkdir p fs of
        Inr fs' \<Rightarrow> Inr fs'
      | Inl FileNotFoundError \<Rightarrow>
          if Path_parent p = p then Inl FileNotFoundError
          else (case Path_mkdir (Path_parent p) fs of
                  Inl err \<Rightarrow> Inl err
                | Inr fs' \<Rightarrow> mkdir_exist_ok p fs')
      | Inl err \<Rightarrow> if p \<in> fs_dirs fs then Inr fs else Inl err)"
  by pat_completeness auto
termination
proof (relation "measure (\<lambda>(p, fs). length (path_parts p))")
  show "wf (measure (\<lambda>(p, fs). length (path_parts p)))" by simp
next
  fix p :: Path and fs :: FileSystem and x :: py_error
  assume "Path_parent p \<noteq> p"
  then have "path_parts p \<noteq> []"
    by (auto simp: Path_parent_def)
  then show "((Path_parent p, fs), (p, fs)) \<in> measure (\<lambda>(p, fs). length (path_parts p))"
    by (simp add: Path_parent_def)
qed

definition write_bytes :: "Path \<Rightarrow> bytes \<Rightarrow> FileSystem \<Rightarrow> py_error + FileSystem" where
  "write_bytes p data fs =
     (if p \<in> fs_dirs fs then Inl IsADirectoryError
      else if fs_files fs (Path_parent p) \<noteq> None then Inl NotADirectoryError
      else if Path_parent p \<notin> fs_dirs fs then Inl FileNotFoundError
      else Inr (fs\<lparr>fs_files := (fs_files fs)(p \<mapsto> data)\<rparr>))"

definition read_bytes :: "Path \<Rightarrow> FileSystem \<Rightarrow> py_error + bytes" where
  "read_bytes p fs =
     (if p \<in> fs_dirs fs then Inl IsADirectoryError
      else (case fs_files fs p of
              None \<Rightarrow> Inl FileNotFoundError
            | Some data \<Rightarrow> Inr data))"

subsection \<open>LocalStorage\<close>

record LocalStorage =
  video_dir :: Path
  report_dir :: Path

text \<open>\<open>LocalStorage.__init__\<close>: keeps the two directories and creates them.\<close>

definition LocalStorage_init ::
  "Path \<Rightarrow> Path \<Rightarrow> FileSystem \<Rightarrow> py_error + (LocalStorage \<times> FileSystem)" where
  "LocalStorage_init vdir rdir fs =
     (case Path_mkdir vdir fs of
        Inl err \<Rightarrow> Inl err
      | Inr fs1 \<Rightarrow>
          (case Path_mkdir rdir fs1 of
             Inl err \<Rightarrow> Inl err
           | Inr fs2 \<Rightarrow> Inr (\<lparr>video_dir = vdir, report_dir = rdir\<rparr>, fs2)))"

text \<open>\<open>LocalStorage._resolve\<close>, with its three cases in the order of the source.\<close>

definition LocalStorage_resolve :: "LocalStorage \<Rightarrow> string \<Rightarrow> py_error + Path" where
  "LocalStorage_resolve self key =
     (if startswith key ''videos/'' then
        (case list_getitem (split1 CHR ''/'' key) 1 of
           Inl err \<Rightarrow> Inl err
         | Inr rest \<Rightarrow> Inr (truediv (video_dir self) rest))
      else if startswith key ''reports/'' then
        (case list_getitem (split1 CHR ''/'' key) 1 of
           Inl err \<Rightarrow> Inl err
         | Inr rest \<Rightarrow> Inr (truediv (report_dir self) rest))
      else Inr (truediv (report_dir self) key))"

definition LocalStorage_save_video_bytes ::
  "LocalStorage \<Rightarrow> FileSystem \<Rightarrow> string \<Rightarrow> bytes \<Rightarrow> py_error + (string \<times> FileSystem)" where
  "LocalStorage_save_video_bytes self fs key data =
     (case LocalStorage_resolve self (''videos/'' @ key) of
        Inl err \<Rightarrow> Inl err
      | Inr path \<Rightarrow>
          (case write_bytes path data fs of
             Inl err \<Rightarrow> Inl err
           | Inr fs' \<Rightarrow> Inr (Path_str path, fs')))"

definition LocalStorage_save_report_bytes ::
  "LocalStorage \<Rightarrow> FileSystem \<Rightarrow> string \<Rightarrow> bytes \<Rightarrow> string \<Rightarrow> py_error + (string \<times> FileSystem)" where
  "LocalStorage_save_report_bytes self fs key data content_type =
     (case LocalStorage_resolve self (''reports/'' @ key) of
        Inl err \<Rightarrow> Inl err
      | Inr path \<Rightarrow>
          (case write_bytes path data fs of
             Inl err \<Rightarrow> Inl err
           | Inr fs' \<Rightarrow> Inr (Path_str path, fs')))"

definition LocalStorage_open_bytes ::
  "LocalStorage \<Rightarrow> FileSystem \<Rightarrow> string \<Rightarrow> py_error + bytes" where
  "LocalStorage_open_bytes self fs key =
     (case LocalStorage_resolve self key of
        Inl err \<Rightarrow> Inl err
      | Inr path \<Rightarrow> read_bytes path fs)"

subsection \<open>DetaStorage\<close>

text \<open>
  The \<open>deta\<close> library is not part of the repository. A \<open>Drive\<close> is taken as a store of
  blobs by name: \<open>put\<close> stores the blob under the name when the library accepts the
  arguments (\<open>drive_accepts\<close>, a parameter: the library's own checks of its arguments)
  and raises otherwise; \<open>get\<close> returns the stored blob, or \<open>None\<close> for a name that was
  never stored, on which the \<open>with\<close> statement of \<open>open_bytes\<close> raises.
\<close>

record Drive =
  drive_accepts :: "string \<Rightarrow> bytes \<Rightarrow> bool"
  drive_blobs :: "string \<rightharpoonup> bytes"

definition Drive_put :: "Drive \<Rightarrow> string \<Rightarrow> bytes \<Rightarrow> py_error + Drive" where
  "Drive_put drive name data =
     (if drive_accepts drive name data
      then Inr (drive\<lparr>drive_blobs := (drive_blobs drive)(name \<mapsto> data)\<rparr>)
      else Inl AssertionError)"

definition Drive_get :: "Drive \<Rightarrow> string \<Rightarrow> bytes option" where
  "Drive_get drive name = drive_blobs drive name"

record DetaStorage =
  videos :: Drive
  reports :: Drive

definition DetaStorage_save_video_bytes ::
  "DetaStorage \<Rightarrow> string \<Rightarrow> bytes \<Rightarrow> py_error + (string \<times> DetaStorage)" where
  "DetaStorage_save_video_bytes self key data =
     (case Drive_put (videos self) key data of
        Inl err \<Rightarrow> Inl err
      | Inr drive \<Rightarrow> Inr (''videos/'' @ key, self\<lparr>videos := drive\<rparr>))"

definition DetaStorage_save_report_bytes ::
  "DetaStorage \<Rightarrow> string \<Rightarrow> bytes \<Rightarrow> string \<Rightarrow> py_error + (string \<times> DetaStorage)" where
  "DetaStorage_save_report_bytes self key data content_type =
     (case Drive_put (reports self) key data of
        Inl err \<Rightarrow> Inl err
      | Inr drive \<Rightarrow> Inr (''reports/'' @ key, self\<lparr>reports := drive\<rparr>))"

text \<open>
  \<open>DetaStorage.open_bytes\<close>:
  \<^verbatim>\<open>drive, name = key.split("/", 1) if "/" in key else ("reports", key)\<close>, then
  \<^verbatim>\<open>bucket = self.reports if drive == "reports" else self.videos\<close>.
  \<open>DetaStorage_bucket\<close> is the pair of the chosen bucket and the name looked up in it.
\<close>

definition DetaStorage_bucket :: "DetaStorage \<Rightarrow> string \<Rightarrow> py_error + (Drive \<times> string)" where
  "DetaStorage_bucket self key =
     (case (if CHR ''/'' \<in> set key then split1 CHR ''/'' key else [''reports'', key]) of
        [drive, name] \<Rightarrow>
          Inr (if drive = ''reports'' then reports self else videos self, name)
      | _ \<Rightarrow> Inl ValueError)"

definition DetaStorage_open_bytes :: "DetaStorage \<Rightarrow> string \<Rightarrow> py_error + bytes" where
  "DetaStorage_open_bytes self key =
     (case DetaStorage_bucket self key of
        Inl err \<Rightarrow> Inl err
      | Inr (bucket, name) \<Rightarrow>
          (case Drive_get bucket name of
             None \<Rightarrow> Inl TypeError
           | Some data \<Rightarrow> Inr data))"

section \<open>schemas.py\<close>

record LogEventRequest =
  request_event_type :: string
  request_message :: "string option"
  request_timestamp :: "datetime option"

record SessionResponse =
  response_id :: string
  response_candidate_name :: string
  response_start_time :: datetime
  response_end_time :: "datetime option"
  response_video_path :: "string option"

text \<open>
  \<open>ReportResponse\<close>. Its \<open>integrity_score\<close> is declared \<open>float\<close>; the handler passes the
  integer score, whose value the conversion keeps.
\<close>

record ReportResponse =
  report_candidate_name :: string
  report_session_id :: string
  interview_duration_seconds :: int
  focus_lost_count :: int
  looking_away_count :: int
  no_face_segments :: int
  multiple_faces_count :: int
  phone_detected_count :: int
  notes_detected_count :: int
  device_detected_count :: int
  suspicious_events_count :: int
  integrity_score :: int

section \<open>main.py\<close>

definition DATA_DIR :: Path where
  "DATA_DIR = Path_of ''data''"

definition VIDEO_DIR :: Path where
  "VIDEO_DIR = truediv DATA_DIR ''videos''"

definition REPORT_DIR :: Path where
  "REPORT_DIR = truediv DATA_DIR ''reports''"

subsection \<open>The two collections\<close>

text \<open>
  A document of \<open>sessions_collection\<close>, without its \<open>_id\<close>, which is the key it is stored
  under. Every document is written by \<open>create_session\<close>, so it has a candidate name and
  a start time; \<open>end_time\<close> and \<open>video_path\<close> are \<open>None\<close> until they are set.
  A document of \<open>events_collection\<close> has the fields of \<open>Event\<close> and is kept as one.
  \<open>insert_one\<close> refuses an \<open>_id\<close> that is already there; \<open>update_one\<close> with \<open>$set\<close>
  changes the named field of the document with the given \<open>_id\<close>, if there is one.
\<close>

record SessionDoc =
  doc_candidate_name :: string
  doc_start_time :: datetime
  doc_end_time :: "datetime option"
  doc_video_path :: "string option"

record Database =
  sessions_collection :: "string \<rightharpoonup> SessionDoc"
  events_collection :: "Event list"

datatype failure = HTTPException nat string | Raised py_error

definition find_one_session :: "Database \<Rightarrow> string \<Rightarrow> SessionDoc option" where
  "find_one_session db sid = sessions_collection db sid"

definition insert_one_session :: "Database \<Rightarrow> string \<Rightarrow> SessionDoc \<Rightarrow> py_error + Database" where
  "insert_one_session db sid doc =
     (if sessions_collection db sid \<noteq> None then Inl DuplicateKeyError
      else Inr (db\<lparr>sessions_collection := (sessions_collection db)(sid \<mapsto> doc)\<rparr>))"

definition update_one_session ::
  "Database \<Rightarrow> string \<Rightarrow> (SessionDoc \<Rightarrow> SessionDoc) \<Rightarrow> Database" where
  "update_one_session db sid set_fields =
     (case sessions_collection db sid of
        None \<Rightarrow> db
      | Some doc \<Rightarrow> db\<lparr>sessions_collection := (sessions_collection db)(sid \<mapsto> set_fields doc)\<rparr>)"

definition insert_one_event :: "Database \<Rightarrow> Event \<Rightarrow> py_error + Database" where
  "insert_one_event db e =
     (if list_ex (\<lambda>e'. event_id e' = event_id e) (events_collection db)
      then Inl DuplicateKeyError
      else Inr (db\<lparr>events_collection := events_collection db @ [e]\<rparr>))"

text \<open>
  \<open>events_collection.find({"session_id": session_id}).sort("timestamp", 1)\<close>. Events
  with the same timestamp stay in the order of their insertion here; the database
  fixes no order for them.
\<close>

definition find_events :: "Database \<Rightarrow> string \<Rightarrow> Event list" where
  "find_events db sid =
     sort_key event_timestamp (filter (\<lambda>e. event_session_id e = sid) (events_collection db))"

definition session_response :: "string \<Rightarrow> SessionDoc \<Rightarrow> SessionResponse" where
  "session_response sid doc =
     \<lparr>response_id = sid,
      response_candidate_name = doc_candidate_name doc,
      response_start_time = doc_start_time doc,
      response_end_time = doc_end_time doc,
      response_video_path = doc_video_path doc\<rparr>"

subsection \<open>The handlers\<close>

text \<open>
  A handler takes the database and returns the database it leaves behind with its
  response, or the exception it raises. What a handler reads from outside is an
  argument: the UUID it draws, the clock (\<open>datetime.utcnow()\<close>), and the outcome of its
  call to the storage backend.

  The handlers are coroutines: at each \<open>await\<close> another handler can run. The handlers
  that write after looking the session up (\<open>log_event\<close>, \<open>end_session\<close>,
  \<open>upload_video\<close>, \<open>import_video\<close>) are therefore in two parts. The first part is the
  \<open>find_one\<close>; the second part, named \<open>..._after_find\<close>, takes the document that was
  found and the database as it is when the handler goes on, which is no longer the
  database the document was read from when another handler wrote in between. The
  handler under its own name is the two parts with nothing in between.
\<close>

definition create_session ::
  "Database \<Rightarrow> string \<Rightarrow> string \<Rightarrow> datetime \<Rightarrow> Database \<times> (failure + SessionResponse)" where
  "create_session db payload_candidate_name uuid now =
     (let session_doc =
        \<lparr>doc_candidate_name = payload_candidate_name, doc_start_time = now,
         doc_end_time = None, doc_video_path = None\<rparr>
      in case insert_one_session db uuid session_doc of
           Inl err \<Rightarrow> (db, Inl (Raised err))
         | Inr db' \<Rightarrow> (db', Inr (session_response uuid session_doc)))"

definition log_event_after_find ::
  "Database \<Rightarrow> string \<Rightarrow> SessionDoc option \<Rightarrow> LogEventRequest \<Rightarrow> string \<Rightarrow> datetime \<Rightarrow>
     Database \<times> (failure + Event)" where
  "log_event_after_find db sid found payload uuid now =
     (case found of
        None \<Rightarrow> (db, Inl (HTTPException 404 ''Session not found''))
      | Some session_doc \<Rightarrow>
          let timestamp = (case request_timestamp payload of None \<Rightarrow> now | Some t \<Rightarrow> t);
              event_data =
                \<lparr>event_id = Some uuid, event_session_id = sid,
                 event_type = request_event_type payload,
                 event_message = request_message payload,
                 event_timestamp = timestamp\<rparr>
          in case insert_one_event db event_data of
               Inl err \<Rightarrow> (db, Inl (Raised err))
             | Inr db' \<Rightarrow> (db', Inr event_data))"

definition log_event ::
  "Database \<Rightarrow> string \<Rightarrow> LogEventRequest \<Rightarrow> string \<Rightarrow> datetime \<Rightarrow>
     Database \<times> (failure + Event)" where
  "log_event db sid payload uuid now =
     log_event_after_find db sid (find_one_session db sid) payload uuid now"

text \<open>
  \<open>end_session\<close>: \<^verbatim>\<open>if session_doc.get("end_time") is None:\<close> tests the document
  that was found, reads the clock, and sets \<open>end_time\<close> with an \<open>update_one\<close> that
  selects by \<open>_id\<close> alone, and in the document it answers with.
\<close>

definition end_session_after_find ::
  "Database \<Rightarrow> string \<Rightarrow> SessionDoc option \<Rightarrow> datetime \<Rightarrow>
     Database \<times> (failure + SessionResponse)" where
  "end_session_after_find db sid found now =
     (case found of
        None \<Rightarrow> (db, Inl (HTTPException 404 ''Session not found''))
      | Some session_doc \<Rightarrow>
          if doc_end_time session_doc = None
          then (update_one_session db sid (\<lambda>d. d\<lparr>doc_end_time := Some now\<rparr>),
                Inr (session_response sid (session_doc\<lparr>doc_end_time := Some now\<rparr>)))
          else (db, Inr (session_response sid session_doc)))"

definition end_session ::
  "Database \<Rightarrow> string \<Rightarrow> datetime \<Rightarrow> Database \<times> (failure + SessionResponse)" where
  "end_session db sid now = end_session_after_find db sid (find_one_session db sid) now"

definition upload_video_after_find ::
  "Database \<Rightarrow> string \<Rightarrow> SessionDoc option \<Rightarrow> py_error + string \<Rightarrow>
     Database \<times> (failure + SessionResponse)" where
  "upload_video_after_find db sid found saved =
     (case found of
        None \<Rightarrow> (db, Inl (HTTPException 404 ''Session not found''))
      | Some session_doc \<Rightarrow>
          (case saved of
             Inl err \<Rightarrow> (db, Inl (Raised err))
           | Inr saved_ref \<Rightarrow>
               (update_one_session db sid (\<lambda>d. d\<lparr>doc_video_path := Some saved_ref\<rparr>),
                Inr (session_response sid (session_doc\<lparr>doc_video_path := Some saved_ref\<rparr>)))))"

definition upload_video ::
  "Database \<Rightarrow> string \<Rightarrow> py_error + string \<Rightarrow> Database \<times> (failure + SessionResponse)" where
  "upload_video db sid saved =
     upload_video_after_find db sid (find_one_session db sid) saved"

definition import_video_after_find ::
  "Database \<Rightarrow> string \<Rightarrow> SessionDoc option \<Rightarrow> bool \<Rightarrow> py_error + string \<Rightarrow>
     Database \<times> (failure + SessionResponse)" where
  "import_video_after_find db sid found source_is_file saved =
     (case found of
        None \<Rightarrow> (db, Inl (HTTPException 404 ''Session not found''))
      | Some session_doc \<Rightarrow>
          if \<not> source_is_file then (db, Inl (HTTPException 404 ''Source video not found''))
          else (case saved of
                  Inl err \<Rightarrow> (db, Inl (Raised err))
                | Inr saved_ref \<Rightarrow>
                    (update_one_session db sid (\<lambda>d. d\<lparr>doc_video_path := Some saved_ref\<rparr>),
                     Inr (session_response sid
                            (session_doc\<lparr>doc_video_path := Some saved_ref\<rparr>)))))"

definition import_video ::
  "Database \<Rightarrow> string \<Rightarrow> bool \<Rightarrow> py_error + string \<Rightarrow>
     Database \<times> (failure + SessionResponse)" where
  "import_video db sid source_is_file saved =
     import_video_after_find db sid (find_one_session db sid) source_is_file saved"

text \<open>
  \<open>get_report\<close>. The duration is computed from the document:
  \<^verbatim>\<open>if session_doc.get("start_time") and session_doc.get("end_time"):\<close>;
  \<open>session_obj\<close> is the \<open>Session\<close> built for the rendered report, and
  \<open>suspicious_total\<close> the sum of the four \<open>counts.get(..., 0)\<close>.
\<close>

definition get_report_duration_seconds :: "SessionDoc \<Rightarrow> int" where
  "get_report_duration_seconds session_doc =
     (case doc_end_time session_doc of
        None \<Rightarrow> 0
      | Some e \<Rightarrow> py_int (total_seconds (e - doc_start_time session_doc)))"

definition session_obj :: "string \<Rightarrow> SessionDoc \<Rightarrow> Session" where
  "session_obj sid session_doc =
     \<lparr>session_id = Some sid,
      candidate_name = doc_candidate_name session_doc,
      start_time = doc_start_time session_doc,
      end_time = doc_end_time session_doc,
      video_path = doc_video_path session_doc\<rparr>"

definition suspicious_total :: "(string, int) dict \<Rightarrow> int" where
  "suspicious_total counts =
     sum_list
       [dict_get counts ''multiple_faces'' 0,
        dict_get counts ''phone_detected'' 0,
        dict_get counts ''notes_detected'' 0,
        dict_get counts ''device_detected'' 0]"

definition get_report :: "Database \<Rightarrow> string \<Rightarrow> py_error + string \<Rightarrow> failure + ReportResponse" where
  "get_report db sid saved =
     (case find_one_session db sid of
        None \<Rightarrow> Inl (HTTPException 404 ''Session not found'')
      | Some session_doc \<Rightarrow>
          (case summarize_events (find_events db sid) of
             Inl err \<Rightarrow> Inl (Raised err)
           | Inr counts \<Rightarrow>
               (case saved of
                  Inl err \<Rightarrow> Inl (Raised err)
                | Inr saved_ref \<Rightarrow>
                    Inr \<lparr>report_candidate_name = doc_candidate_name session_doc,
                         report_session_id = sid,
                         interview_duration_seconds = get_report_duration_seconds session_doc,
                         focus_lost_count = dict_get counts ''focus_lost'' 0,
                         looking_away_count = dict_get counts ''looking_away'' 0,
                         no_face_segments = dict_get counts ''no_face'' 0,
                         multiple_faces_count = dict_get counts ''multiple_faces'' 0,
                         phone_detected_count = dict_get counts ''phone_detected'' 0,
                         notes_detected_count = dict_get counts ''notes_detected'' 0,
                         device_detected_count = dict_get counts ''device_detected'' 0,
                         suspicious_events_count = suspicious_total counts,
                         integrity_score = compute_integrity_score counts\<rparr>)))"

subsection \<open>The CSV report\<close>

text \<open>
  Modelled from the spec: \<open>build_csv_report_content\<close>, which \<open>main.py\<close> imports from
  \<open>report.py\<close> and \<open>report.py\<close> does not define. The spec gives the document as a header
  row and one data row with the candidate name, the session id, the duration, the seven
  category counts, the aggregate suspicious-event count and the integrity score; the
  duration and the aggregate are computed as everywhere else. The document is kept as
  its rows of cells: the spec fixes neither the column titles nor the delimiter and the
  quoting of the text. The titles are the field names of \<open>ReportResponse\<close>.
\<close>

datatype csv_cell = Text string | Number int

definition str_optional :: "string option \<Rightarrow> string" where
  "str_optional x = (case x of None \<Rightarrow> ''None'' | Some s \<Rightarrow> s)"

definition csv_header :: "csv_cell list" where
  "csv_header =
     [Text ''candidate_name'', Text ''session_id'', Text ''interview_duration_seconds'',
      Text ''focus_lost_count'', Text ''looking_away_count'', Text ''no_face_segments'',
      Text ''multiple_faces_count'', Text ''phone_detected_count'',
      Text ''notes_detected_count'', Text ''device_detected_count'',
      Text ''suspicious_events_count'', Text ''integrity_score'']"

definition build_csv_report_content ::
  "Session \<Rightarrow> (string, int) dict \<Rightarrow> int \<Rightarrow> csv_cell list list" where
  "build_csv_report_content session counts score =
     [csv_header,
      [Text (candidate_name session),
       Text (str_optional (session_id session)),
       Number (write_html_report_duration_seconds session),
       Number (dict_get counts ''focus_lost'' 0),
       Number (dict_get counts ''looking_away'' 0),
       Number (dict_get counts ''no_face'' 0),
       Number (dict_get counts ''multiple_faces'' 0),
       Number (dict_get counts ''phone_detected'' 0),
       Number (dict_get counts ''notes_detected'' 0),
       Number (dict_get counts ''device_detected'' 0),
       Number (suspicious_total counts),
       Number score]]"

text \<open>\<open>download_report_csv\<close>, as far as the document it streams.\<close>

definition download_report_csv ::
  "Database \<Rightarrow> string \<Rightarrow> py_error + string \<Rightarrow> failure + csv_cell list list" where
  "download_report_csv db sid saved =
     (case find_one_session db sid of
        None \<Rightarrow> Inl (HTTPException 404 ''Session not found'')
      | Some session_doc \<Rightarrow>
          (case summarize_events (find_events db sid) of
             Inl err \<Rightarrow> Inl (Raised err)
           | Inr counts \<Rightarrow>
               (case saved of
                  Inl err \<Rightarrow> Inl (Raised err)
                | Inr saved_ref \<Rightarrow>
                    Inr (build_csv_report_content (session_obj sid session_doc) counts
                           (compute_integrity_score counts)))))"

subsection \<open>Requests\<close>

text \<open>
  The requests the application serves, with what each handler reads from outside.
  \<open>handle\<close> is the database a handler leaves behind when it runs with no other handler
  in between, and \<open>serve\<close> a sequence of requests handled one at a time. The handlers
  that only read the collections (\<open>list_sessions\<close>, \<open>get_session\<close>, \<open>get_report\<close>,
  \<open>download_report_csv\<close>, \<open>get_video\<close>, \<open>get_report_file\<close>, \<open>root\<close>) leave the
  database as it is.
\<close>

datatype request =
    CreateSession string string datetime
  | ListSessions
  | GetSession string
  | LogEvent string LogEventRequest string datetime
  | EndSession string datetime
  | UploadVideo string "py_error + string"
  | ImportVideo string bool "py_error + string"
  | GetReport string "py_error + string"
  | DownloadReportCsv string "py_error + string"
  | GetVideo string
  | GetReportFile string
  | Root

fun handle :: "Database \<Rightarrow> request \<Rightarrow> Database" where
  "handle db (CreateSession payload_candidate_name uuid now) =
     fst (create_session db payload_candidate_name uuid now)"
| "handle db (LogEvent sid payload uuid now) = fst (log_event db sid payload uuid now)"
| "handle db (EndSession sid now) = fst (end_session db sid now)"
| "handle db (UploadVideo sid saved) = fst (upload_video db sid saved)"
| "handle db (ImportVideo sid source_is_file saved) =
     fst (import_video db sid source_is_file saved)"
| "handle db ListSessions = db"
| "handle db (GetSession sid) = db"
| "handle db (GetReport sid saved) = db"
| "handle db (DownloadReportCsv sid saved) = db"
| "handle db (GetVideo name) = db"
| "handle db (GetReportFile name) = db"
| "handle db Root = db"

fun serve :: "Database \<Rightarrow> request list \<Rightarrow> Database" where
  "serve db [] = db"
| "serve db (r # rs) = serve (handle db r) rs"

subsection \<open>Handlers that overlap\<close>

text \<open>
  The server with its handlers in flight. \<open>Start rid r\<close> begins the handler of request
  \<open>r\<close> under the number \<open>rid\<close>: a handler in two parts does its \<open>find_one\<close> and is
  suspended with the document it found; every other handler writes at most once and is
  done. \<open>Resume rid\<close> lets the suspended handler \<open>rid\<close> run its second part on the
  database as it is by then. \<open>run\<close> follows a schedule of such actions, so any
  interleaving of the handlers at their awaits is a schedule.
\<close>

type_synonym suspended = "nat \<times> request \<times> SessionDoc option"

record Server =
  server_db :: Database
  server_suspended :: "suspended list"

datatype action = Start nat request | Resume nat

fun looked_up :: "request \<Rightarrow> string option" where
  "looked_up (LogEvent sid payload uuid now) = Some sid"
| "looked_up (EndSession sid now) = Some sid"
| "looked_up (UploadVideo sid saved) = Some sid"
| "looked_up (ImportVideo sid source_is_file saved) = Some sid"
| "looked_up r = None"

fun after_find :: "Database \<Rightarrow> request \<Rightarrow> SessionDoc option \<Rightarrow> Database" where
  "after_find db (LogEvent sid payload uuid now) found =
     fst (log_event_after_find db sid found payload uuid now)"
| "after_find db (EndSession sid now) found = fst (end_session_after_find db sid found now)"
| "after_find db (UploadVideo sid saved) found = fst (upload_video_after_find db sid found saved)"
| "after_find db (ImportVideo sid source_is_file saved) found =
     fst (import_video_after_find db sid found source_is_file saved)"
| "after_find db r found = handle db r"

fun step :: "Server \<Rightarrow> action \<Rightarrow> Server" where
  "step s (Start rid r) =
     (case looked_up r of
        None \<Rightarrow> s\<lparr>server_db := handle (server_db s) r\<rparr>
      | Some sid \<Rightarrow>
          s\<lparr>server_suspended :=
              server_suspended s @ [(rid, r, find_one_session (server_db s) sid)]\<rparr>)"
| "step s (Resume rid) =
     (case find (\<lambda>p. fst p = rid) (server_suspended s) of
        None \<Rightarrow> s
      | Some p \<Rightarrow>
          \<lparr>server_db = after_find (server_db s) (fst (snd p)) (snd (snd p)),
           server_suspended = remove1 p (server_suspended s)\<rparr>)"

fun run :: "Server \<Rightarrow> action list \<Rightarrow> Server" where
  "run s [] = s"
| "run s (a # as) = run (step s a) as"

text \<open>The schedule that handles the requests one at a time.\<close>

fun one_at_a_time :: "request list \<Rightarrow> action list" where
  "one_at_a_time [] = []"
| "one_at_a_time (r # rs) = Start 0 r # Resume 0 # one_at_a_time rs"

section \<open>Auxiliary notions for the verification\<close>

text \<open>
  The seven fixed category tags: the keys of \<open>EVENT_WEIGHTS\<close> and of the dict literal in
  \<open>summarize_events\<close>, in the order both literals list them.
\<close>

definition CATEGORIES :: "string list" where
  "CATEGORIES = [''focus_lost'', ''looking_away'', ''no_face'', ''multiple_faces'',
     ''phone_detected'', ''notes_detected'', ''device_detected'']"

text \<open>
  What the loop of \<open>summarize_events\<close> does to one entry of the dict: \<open>bump t\<close> is one
  pass for an event of type \<open>t\<close>, \<open>add_counts events\<close> the whole loop, with
  \<open>count_type k events\<close> the number of events of type \<open>k\<close>. \<open>penalty\<close> is what the loop
  of \<open>compute_integrity_score\<close> subtracts from 100. \<open>event_of_type t\<close> is an event of
  type \<open>t\<close> with nothing else set.
\<close>

definition bump :: "string \<Rightarrow> string \<times> int \<Rightarrow> string \<times> int" where
  "bump t kv = (fst kv, if fst kv = t then snd kv + 1 else snd kv)"

definition count_type :: "string \<Rightarrow> Event list \<Rightarrow> nat" where
  "count_type k events = length (filter (\<lambda>e. event_type e = k) events)"

definition add_counts :: "Event list \<Rightarrow> string \<times> int \<Rightarrow> string \<times> int" where
  "add_counts events kv = (fst kv, snd kv + int (count_type (fst kv) events))"

definition penalty :: "(string \<times> int) list \<Rightarrow> int" where
  "penalty items = (\<Sum>kv\<leftarrow>items. snd kv * dict_get EVENT_WEIGHTS (fst kv) 0)"

definition event_of_type :: "string \<Rightarrow> Event" where
  "event_of_type t =
     \<lparr>event_id = None, event_session_id = [], event_type = t, event_message = None,
      event_timestamp = 0\<rparr>"

text \<open>
  A storage over the directories of \<open>main.py\<close> and the file system its constructor
  leaves behind when started in an empty working directory; a blob store that accepts
  every argument.
\<close>

definition example_storage :: LocalStorage where
  "example_storage = \<lparr>video_dir = VIDEO_DIR, report_dir = REPORT_DIR\<rparr>"

definition example_fs :: FileSystem where
  "example_fs =
     \<lparr>fs_dirs = {REPORT_DIR, VIDEO_DIR, DATA_DIR, Path_of ''.''}, fs_files = Map.empty\<rparr>"

definition example_drive :: Drive where
  "example_drive = \<lparr>drive_accepts = (\<lambda>name data. True), drive_blobs = Map.empty\<rparr>"

definition example_deta :: DetaStorage where
  "example_deta = \<lparr>videos = example_drive, reports = example_drive\<rparr>"

text \<open>
  Three sessions: one that ended 125.5 seconds after it started, one whose end time
  lies 1.5 seconds before its start time, and one that ended a microsecond less than
  \<open>2**35\<close> seconds after it started.
\<close>

definition long_session :: Session where
  "long_session =
     \<lparr>session_id = Some ''s1'', candidate_name = ''Ada'', start_time = 0,
      end_time = Some 34359738367999999, video_path = None\<rparr>"

definition ended_session :: Session where
  "ended_session =
     \<lparr>session_id = Some ''s1'', candidate_name = ''Ada'', start_time = 40000000,
      end_time = Some 165500000, video_path = None\<rparr>"

definition late_start_session :: Session where
  "late_start_session =
     \<lparr>session_id = Some ''s1'', candidate_name = ''Ada'', start_time = 1500000,
      end_time = Some 0, video_path = None\<rparr>"

text \<open>The four tags that \<open>get_report\<close> adds up as suspicious.\<close>

definition SUSPICIOUS :: "string list" where
  "SUSPICIOUS = [''multiple_faces'', ''phone_detected'', ''notes_detected'', ''device_detected'']"

text \<open>\<open>has_end_time db sid t\<close>: the session \<open>sid\<close> is stored and its end time is \<open>t\<close>.\<close>

definition has_end_time :: "Database \<Rightarrow> string \<Rightarrow> datetime \<Rightarrow> bool" where
  "has_end_time db sid t =
     (case find_one_session db sid of
        None \<Rightarrow> False
      | Some doc \<Rightarrow> doc_end_time doc = Some t)"

text \<open>
  A suspended handler that will write an end time for the session \<open>sid\<close>: an
  \<open>end_session\<close> that found the session with no end time. \<open>settled s sid t\<close>: the
  session has the end time \<open>t\<close> and no suspended handler will write another.
\<close>

fun writes_end_time :: "string \<Rightarrow> suspended \<Rightarrow> bool" where
  "writes_end_time sid (rid, EndSession sid' now, Some doc) =
     (sid' = sid \<and> doc_end_time doc = None)"
| "writes_end_time sid p = False"

definition settled :: "Server \<Rightarrow> string \<Rightarrow> datetime \<Rightarrow> bool" where
  "settled s sid t =
     (has_end_time (server_db s) sid t \<and> \<not> list_ex (writes_end_time sid) (server_suspended s))"

text \<open>
  A database with an ended session that has three events, one of them of no known type,
  and a session that has not ended.
\<close>

definition example_doc :: SessionDoc where
  "example_doc =
     \<lparr>doc_candidate_name = ''Ada'', doc_start_time = 40000000,
      doc_end_time = Some 165500000, doc_video_path = None\<rparr>"

definition open_doc :: SessionDoc where
  "open_doc =
     \<lparr>doc_candidate_name = ''Grace'', doc_start_time = 50000000,
      doc_end_time = None, doc_video_path = None\<rparr>"

definition example_db :: Database where
  "example_db =
     \<lparr>sessions_collection = [''s1'' \<mapsto> example_doc, ''s2'' \<mapsto> open_doc],
      events_collection =
        [(event_of_type ''phone_detected'')\<lparr>event_session_id := ''s1''\<rparr>,
         (event_of_type ''looking_away'')\<lparr>event_session_id := ''s1''\<rparr>,
         (event_of_type ''yawning'')\<lparr>event_session_id := ''s1''\<rparr>,
         (event_of_type ''notes_detected'')\<lparr>event_session_id := ''s2''\<rparr>]\<rparr>"

text \<open>
  Two calls of \<open>end_session\<close> for the session that has not ended, the second one
  started before the first one has written.
\<close>

definition example_server :: Server where
  "example_server = \<lparr>server_db = example_db, server_suspended = []\<rparr>"

definition overlapping_ends :: "action list" where
  "overlapping_ends =
     [Start 1 (EndSession ''s2'' 90000000), Start 2 (EndSession ''s2'' 95000000), Resume 1]"

text \<open>A remote storage with a blob of the same name in each bucket.\<close>

definition filled_deta :: DetaStorage where
  "filled_deta =
     \<lparr>videos = example_drive\<lparr>drive_blobs := [''clip.webm'' \<mapsto> [7]]\<rparr>,
      reports = example_drive\<lparr>drive_blobs := [''clip.webm'' \<mapsto> [9]]\<rparr>\<rparr>"

text \<open>
  The components a parsed path can have: not empty, not \<open>.\<close>, and without a slash.
\<close>

definition wf_parts :: "string list \<Rightarrow> bool" where
  "wf_parts ps = list_all (\<lambda>w. w \<noteq> [] \<and> w \<noteq> ''.'' \<and> CHR ''/'' \<notin> set w) ps"

text \<open>A storage over absolute directories, and a file system in which they exist.\<close>

definition absolute_storage :: LocalStorage where
  "absolute_storage =
     \<lparr>video_dir = Path_of ''/srv/videos'', report_dir = Path_of ''/srv/reports''\<rparr>"

definition absolute_fs :: FileSystem where
  "absolute_fs =
     \<lparr>fs_dirs = {Path_of ''/srv/reports'', Path_of ''/srv/videos'', Path_of ''/srv'', Path_of ''/''},
      fs_files = Map.empty\<rparr>"

section \<open>Facts about dicts\<close>

lemma map_of_dict_setitem:
  "map_of (dict_setitem k v d) = (map_of d)(k \<mapsto> v)"
  by (induction d) (auto simp: fun_eq_iff)

lemma keys_dict_setitem_present:
  "map_of d k \<noteq> None \<Longrightarrow> map fst (dict_setitem k v d) = map fst d"
  by (induction d) auto

lemma bump_absent:
  "map_of d k = None \<Longrightarrow> map (bump k) d = d"
  by (induction d) (auto simp: bump_def split: if_splits)

lemma map_of_None_keys: "k \<notin> set (map fst d) \<Longrightarrow> map_of d k = None"
  by (induction d) auto

lemma dict_setitem_bump:
  "distinct (map fst d) \<Longrightarrow> map_of d k = Some v \<Longrightarrow> dict_setitem k (v + 1) d = map (bump k) d"
proof (induction d)
  case Nil then show ?case by simp
next
  case (Cons p d)
  obtain k' v' where p: "p = (k', v')" by (cases p)
  show ?case
  proof (cases "k' = k")
    case True
    with Cons.prems p have v: "v' = v" by simp
    from Cons.prems(1) p True have "k \<notin> set (map fst d)" by simp
    then have rest: "map (bump k) d = d"
      by (simp add: map_of_None_keys bump_absent)
    have hd: "bump k (k, v) = (k, v + 1)" by (simp add: bump_def)
    show ?thesis using True p v rest hd by simp
  next
    case False
    then have hd: "bump k (k', v') = (k', v')" by (simp add: bump_def)
    from Cons False p show ?thesis by (simp add: hd)
  qed
qed

lemma summarize_step_bump:
  assumes "distinct (map fst counts)" and "[] \<notin> set (map fst counts)"
  shows "summarize_step counts e = Inr (map (bump (event_type e)) counts)"
proof (cases "map_of counts (event_type e)")
  case None
  then show ?thesis by (simp add: summarize_step_def dict_contains_def bump_absent)
next
  case (Some v)
  have "event_type e \<in> set (map fst counts)"
  proof (rule ccontr)
    assume "event_type e \<notin> set (map fst counts)"
    then have "map_of counts (event_type e) = None" by (rule map_of_None_keys)
    with Some show False by simp
  qed
  with assms(2) have ne: "event_type e \<noteq> []" by metis
  have "dict_setitem (event_type e) (v + 1) counts = map (bump (event_type e)) counts"
    using assms(1) Some by (rule dict_setitem_bump)
  with Some ne show ?thesis
    by (simp add: summarize_step_def dict_contains_def dict_getitem_def)
qed

lemma fst_bump: "fst (bump t kv) = fst kv"
  by (simp add: bump_def)

lemma add_counts_Nil: "add_counts [] kv = kv"
  by (simp add: add_counts_def count_type_def)

lemma add_counts_Cons: "add_counts (e # events) kv = add_counts events (bump (event_type e) kv)"
  by (simp add: add_counts_def count_type_def bump_def)

lemma summarize_loop_counts:
  "distinct (map fst counts) \<Longrightarrow> [] \<notin> set (map fst counts) \<Longrightarrow>
   summarize_loop counts events = Inr (map (add_counts events) counts)"
proof (induction events arbitrary: counts)
  case Nil
  then show ?case by (simp add: add_counts_Nil)
next
  case (Cons e events)
  let ?c = "map (bump (event_type e)) counts"
  have keys: "map fst ?c = map fst counts"
    by (induction counts) (simp_all add: fst_bump)
  have step: "summarize_step counts e = Inr ?c"
    using Cons.prems by (rule summarize_step_bump)
  have "summarize_loop ?c events = Inr (map (add_counts events) ?c)"
  proof (rule Cons.IH)
    show "distinct (map fst ?c)" using Cons.prems(1) by (simp only: keys)
    show "[] \<notin> set (map fst ?c)" using Cons.prems(2) by (simp only: keys not_False_eq_True)
  qed
  also have "map (add_counts events) ?c = map (add_counts (e # events)) counts"
    by (induction counts) (simp_all add: add_counts_Cons)
  finally show ?case by (simp add: step)
qed

lemma keys_of_literals:
  "map fst initial_counts = CATEGORIES" "map fst EVENT_WEIGHTS = CATEGORIES"
  by (simp_all add: initial_counts_def EVENT_WEIGHTS_def CATEGORIES_def)

lemma summarize_events_counts:
  "summarize_events events = Inr (map (\<lambda>k. (k, int (count_type k events))) CATEGORIES)"
  by (simp add: summarize_events_def summarize_loop_counts initial_counts_def CATEGORIES_def add_counts_def)

lemma length_filter_disj:
  "(\<And>x. \<not> (P x \<and> Q x)) \<Longrightarrow>
   length (filter (\<lambda>x. P x \<or> Q x) xs) = length (filter P xs) + length (filter Q xs)"
  by (induction xs) auto

lemma sum_count_type:
  "distinct ks \<Longrightarrow>
   (\<Sum>k\<leftarrow>ks. count_type k events) = length (filter (\<lambda>e. event_type e \<in> set ks) events)"
proof (induction ks)
  case Nil
  then show ?case by simp
next
  case (Cons k ks)
  have "length (filter (\<lambda>e. event_type e = k \<or> event_type e \<in> set ks) events) =
        length (filter (\<lambda>e. event_type e = k) events) +
        length (filter (\<lambda>e. event_type e \<in> set ks) events)"
    using Cons.prems by (intro length_filter_disj) auto
  with Cons show ?case by (simp add: count_type_def)
qed

lemma length_filter_eq_length:
  "length (filter P xs) = length xs \<longleftrightarrow> (\<forall>x\<in>set xs. P x)"
proof (induction xs)
  case Nil
  then show ?case by simp
next
  case (Cons x xs)
  have "length (filter P xs) \<noteq> Suc (length xs)"
    using length_filter_le [of P xs] by arith
  with Cons show ?case by auto
qed

lemma count_type_mset:
  "mset xs = mset ys \<Longrightarrow> count_type k xs = count_type k ys"
proof -
  assume eq: "mset xs = mset ys"
  have "count_type k zs = size (filter_mset (\<lambda>e. event_type e = k) (mset zs))" for zs
    by (simp add: count_type_def flip: mset_filter)
  with eq show ?thesis by simp
qed

lemma weight_cases:
  "dict_get EVENT_WEIGHTS k 0 =
     (if k = ''focus_lost'' then 2 else if k = ''looking_away'' then 2
      else if k = ''no_face'' then 5 else if k = ''multiple_faces'' then 10
      else if k = ''phone_detected'' then 10 else if k = ''notes_detected'' then 5
      else if k = ''device_detected'' then 8 else 0)"
  by (simp add: EVENT_WEIGHTS_def dict_get_def)

lemma weight_nonneg: "0 \<le> dict_get EVENT_WEIGHTS k 0"
  by (simp add: weight_cases)

lemma score_loop_penalty: "score_loop score items = score - penalty items"
  by (induction score items rule: score_loop.induct) (simp_all add: penalty_def)

lemma dict_get_Cons:
  "dict_get ((k, v) # d) c dflt = (if c = k then v else dict_get d c dflt)"
  by (simp add: dict_get_def)

lemma dict_get_absent: "k \<notin> set (map fst d) \<Longrightarrow> dict_get d k dflt = dflt"
  by (simp add: dict_get_def map_of_None_keys)

lemma penalty_by_category:
  "distinct (map fst counts) \<Longrightarrow>
   penalty counts =
     dict_get counts ''focus_lost'' 0 * 2 + dict_get counts ''looking_away'' 0 * 2 +
     dict_get counts ''no_face'' 0 * 5 + dict_get counts ''multiple_faces'' 0 * 10 +
     dict_get counts ''phone_detected'' 0 * 10 + dict_get counts ''notes_detected'' 0 * 5 +
     dict_get counts ''device_detected'' 0 * 8"
proof (induction counts)
  case Nil
  then show ?case by (simp add: penalty_def dict_get_def)
next
  case (Cons p counts)
  obtain k v where p: "p = (k, v)" by (cases p)
  from Cons.prems p have absent: "dict_get counts k 0 = 0"
    by (simp add: dict_get_absent)
  have "penalty (p # counts) = v * dict_get EVENT_WEIGHTS k 0 + penalty counts"
    by (simp add: penalty_def p)
  also have "penalty counts = dict_get counts ''focus_lost'' 0 * 2 + dict_get counts ''looking_away'' 0 * 2 +
     dict_get counts ''no_face'' 0 * 5 + dict_get counts ''multiple_faces'' 0 * 10 +
     dict_get counts ''phone_detected'' 0 * 10 + dict_get counts ''notes_detected'' 0 * 5 +
     dict_get counts ''device_detected'' 0 * 8"
    using Cons by simp
  finally show ?case
    using absent by (auto simp add: p dict_get_Cons weight_cases)
qed

lemma penalty_nonneg: "\<forall>kv\<in>set items. 0 \<le> snd kv \<Longrightarrow> 0 \<le> penalty items"
  unfolding penalty_def by (induction items) (simp_all add: weight_nonneg)

lemma penalty_dict_setitem:
  "penalty (dict_setitem k v' d) =
     penalty d + (v' - dict_get d k 0) * dict_get EVENT_WEIGHTS k 0"
  by (induction d) (auto simp: penalty_def dict_get_def algebra_simps)

lemma count_type_replicate:
  "count_type k (replicate n (event_of_type t)) = (if t = k then n else 0)"
  by (simp add: count_type_def event_of_type_def)

lemma summarize_events_total_count:
  "sum_list (map snd (map (\<lambda>k. (k, int (count_type k events))) CATEGORIES)) =
     int (length (filter (\<lambda>e. event_type e \<in> set CATEGORIES) events))"
proof -
  have "distinct CATEGORIES" by (simp add: CATEGORIES_def)
  then have "(\<Sum>k\<leftarrow>CATEGORIES. count_type k events) =
      length (filter (\<lambda>e. event_type e \<in> set CATEGORIES) events)"
    by (rule sum_count_type)
  moreover have "sum_list (map snd (map (\<lambda>k. (k, int (count_type k events))) CATEGORIES)) =
      int (\<Sum>k\<leftarrow>CATEGORIES. count_type k events)"
    by (simp add: comp_def CATEGORIES_def)
  ultimately show ?thesis by simp
qed

lemma count_type_zero:
  "\<forall>e\<in>set events. event_type e \<noteq> k \<Longrightarrow> count_type k events = 0"
  by (simp add: count_type_def)

section \<open>Facts about the storage backends\<close>

lemma dirs_eval:
  "DATA_DIR = \<lparr>path_root = [], path_parts = [''data'']\<rparr>"
  "VIDEO_DIR = \<lparr>path_root = [], path_parts = [''data'', ''videos'']\<rparr>"
  "REPORT_DIR = \<lparr>path_root = [], path_parts = [''data'', ''reports'']\<rparr>"
  "Path_of ''.'' = \<lparr>path_root = [], path_parts = []\<rparr>"
  by (simp_all add: DATA_DIR_def VIDEO_DIR_def REPORT_DIR_def Path_of_def truediv_def startswith_def posix_root_def)

lemma split1_prefix:
  "CHR ''/'' \<notin> set prefix \<Longrightarrow>
   split1 CHR ''/'' (prefix @ ''/'' @ name) = [prefix, name]"
  by (simp add: split1_def takeWhile_append dropWhile_append takeWhile_eq_all_conv[THEN iffD2]
        dropWhile_eq_Nil_conv[THEN iffD2])

lemma resolve_videos:
  "LocalStorage_resolve self (''videos/'' @ key) = Inr (truediv (video_dir self) key)"
  using split1_prefix [of "''videos''" key]
  by (simp add: LocalStorage_resolve_def startswith_def list_getitem_def)

lemma resolve_reports:
  "LocalStorage_resolve self (''reports/'' @ key) = Inr (truediv (report_dir self) key)"
  using split1_prefix [of "''reports''" key]
  by (simp add: LocalStorage_resolve_def startswith_def list_getitem_def)

lemma read_after_write:
  "write_bytes p data fs = Inr fs' \<Longrightarrow> read_bytes p fs' = Inr data"
  by (auto simp: write_bytes_def read_bytes_def split: if_splits)

lemma bucket_prefix:
  "CHR ''/'' \<notin> set prefix \<Longrightarrow>
   DetaStorage_bucket self (prefix @ ''/'' @ name) =
     Inr (if prefix = ''reports'' then reports self else videos self, name)"
proof -
  assume "CHR ''/'' \<notin> set prefix"
  then have "split1 CHR ''/'' (prefix @ ''/'' @ name) = [prefix, name]"
    by (rule split1_prefix)
  moreover have "CHR ''/'' \<in> set (prefix @ ''/'' @ name)" by simp
  ultimately show ?thesis
    unfolding DetaStorage_bucket_def by (simp only: if_True list.case)
qed

lemma bucket_no_slash:
  "CHR ''/'' \<notin> set key \<Longrightarrow> DetaStorage_bucket self key = Inr (reports self, key)"
  by (simp add: DetaStorage_bucket_def)

lemma example_init:
  "LocalStorage_init VIDEO_DIR REPORT_DIR \<lparr>fs_dirs = {Path_of ''.''}, fs_files = Map.empty\<rparr> =
     Inr (example_storage, example_fs)"
  by (simp add: LocalStorage_init_def example_storage_def example_fs_def dirs_eval os_mkdir_def
        mkdir_exist_ok_def Path_parent_def)

lemma example_save:
  "LocalStorage_save_video_bytes example_storage example_fs ''a.webm'' data =
     Inr (''data/videos/a.webm'',
          example_fs\<lparr>fs_files := [truediv VIDEO_DIR ''a.webm'' \<mapsto> data]\<rparr>)"
  using resolve_videos [of example_storage "''a.webm''"]
  by (simp add: LocalStorage_save_video_bytes_def example_storage_def example_fs_def dirs_eval
       write_bytes_def Path_parent_def truediv_def Path_of_def startswith_def Path_str_def posix_root_def)

lemma split_all_no_sep: "c \<notin> set w \<Longrightarrow> split_all c w = [w]"
  by (induction w) auto

lemma split_all_append_sep:
  "c \<notin> set w \<Longrightarrow> split_all c (w @ c # s) = w # split_all c s"
  by (induction w) auto

lemma split_all_pieces: "\<forall>w\<in>set (split_all c s). c \<notin> set w"
  by (induction s) (auto split: list.splits)

lemma split_all_join_sep:
  "\<forall>w\<in>set (x # xs). c \<notin> set w \<Longrightarrow> split_all c (join_sep [c] (x # xs)) = x # xs"
proof (induction xs arbitrary: x)
  case Nil
  then show ?case by (simp add: split_all_no_sep)
next
  case (Cons y ys)
  then have "split_all c (join_sep [c] (y # ys)) = y # ys" by simp
  moreover have "c \<notin> set x" using Cons.prems by simp
  ultimately show ?case by (simp add: split_all_append_sep)
qed

lemma wf_parts_Path_of: "wf_parts (path_parts (Path_of s))"
  using split_all_pieces [of "CHR ''/''" s]
  by (auto simp: wf_parts_def Path_of_def list_all_iff)

lemma wf_parts_append: "wf_parts ps \<Longrightarrow> wf_parts qs \<Longrightarrow> wf_parts (ps @ qs)"
  by (simp add: wf_parts_def)

lemma root_Path_of_abs:
  "startswith s ''/'' \<Longrightarrow> path_root (Path_of s) = ''/'' \<or> path_root (Path_of s) = ''//''"
  by (simp add: Path_of_def posix_root_def)

lemma join_sep_not_slash:
  "wf_parts ps \<Longrightarrow> \<not> startswith (join_sep ''/'' ps) ''/''"
proof (cases ps)
  case Nil
  then show ?thesis by (simp add: startswith_def)
next
  case (Cons x xs)
  assume "wf_parts ps"
  with Cons obtain a w where "x = a # w" and "a \<noteq> CHR ''/''"
    by (cases x) (auto simp: wf_parts_def)
  with Cons show ?thesis by (cases xs) (simp_all add: startswith_def)
qed

lemma parts_of_join:
  assumes "wf_parts ps"
  shows "filter (\<lambda>c. c \<noteq> [] \<and> c \<noteq> ''.'') (split_all CHR ''/'' (join_sep ''/'' ps)) = ps"
proof (cases ps)
  case Nil
  then show ?thesis by simp
next
  case (Cons x xs)
  from assms Cons have "\<forall>w\<in>set (x # xs). CHR ''/'' \<notin> set w"
    by (simp add: wf_parts_def list_all_iff)
  then have "split_all CHR ''/'' (join_sep ''/'' (x # xs)) = x # xs"
    using split_all_join_sep [of x xs "CHR ''/''"] by simp
  moreover have "filter (\<lambda>c. c \<noteq> [] \<and> c \<noteq> ''.'') ps = ps"
    using assms by (simp add: wf_parts_def list_all_iff)
  ultimately show ?thesis using Cons by simp
qed

lemma Path_of_Path_str:
  assumes "path_root p = ''/'' \<or> path_root p = ''//''" and "wf_parts (path_parts p)"
  shows "Path_of (Path_str p) = p" and "startswith (Path_str p) ''/''"
proof -
  let ?j = "join_sep ''/'' (path_parts p)"
  have ns: "\<not> startswith ?j ''/''" using assms(2) by (rule join_sep_not_slash)
  have parts: "filter (\<lambda>c. c \<noteq> [] \<and> c \<noteq> ''.'') (split_all CHR ''/'' ?j) = path_parts p"
    using assms(2) by (rule parts_of_join)
  from assms(1) show "startswith (Path_str p) ''/''"
    by (auto simp: Path_str_def startswith_def)
  from assms(1) show "Path_of (Path_str p) = p"
  proof
    assume r: "path_root p = ''/''"
    then have s: "Path_str p = CHR ''/'' # ?j" by (simp add: Path_str_def)
    have "posix_root (CHR ''/'' # ?j) = ''/''"
      using ns by (cases ?j) (auto simp: posix_root_def startswith_def)
    with parts r show ?thesis by (simp add: s Path_of_def)
  next
    assume r: "path_root p = ''//''"
    then have s: "Path_str p = CHR ''/'' # CHR ''/'' # ?j" by (simp add: Path_str_def)
    have "posix_root (CHR ''/'' # CHR ''/'' # ?j) = ''//''"
      using ns by (cases ?j) (auto simp: posix_root_def startswith_def)
    with parts r show ?thesis by (simp add: s Path_of_def)
  qed
qed

lemma truediv_abs:
  assumes "startswith d ''/''"
  shows "path_root (truediv (Path_of d) key) = ''/'' \<or> path_root (truediv (Path_of d) key) = ''//''"
    and "wf_parts (path_parts (truediv (Path_of d) key))"
proof -
  show "path_root (truediv (Path_of d) key) = ''/'' \<or> path_root (truediv (Path_of d) key) = ''//''"
    using root_Path_of_abs [OF assms] root_Path_of_abs [of key]
    by (auto simp: truediv_def)
  show "wf_parts (path_parts (truediv (Path_of d) key))"
    by (simp add: truediv_def wf_parts_Path_of wf_parts_append)
qed

lemma resolve_absolute:
  "startswith ref ''/'' \<Longrightarrow> LocalStorage_resolve self ref = Inr (Path_of ref)"
  by (cases ref) (auto simp: LocalStorage_resolve_def startswith_def truediv_def)

lemma resolve_saved_reference:
  assumes "startswith d ''/''"
  shows "LocalStorage_resolve self (Path_str (truediv (Path_of d) key)) =
     Inr (truediv (Path_of d) key)"
proof -
  note t = truediv_abs [OF assms, of key]
  from Path_of_Path_str [OF t] resolve_absolute [of "Path_str (truediv (Path_of d) key)" self]
  show ?thesis by simp
qed

lemma absolute_save:
  "LocalStorage_save_video_bytes absolute_storage absolute_fs ''a.webm'' data =
     Inr (''/srv/videos/a.webm'',
          absolute_fs\<lparr>fs_files := [Path_of ''/srv/videos/a.webm'' \<mapsto> data]\<rparr>)"
  using resolve_videos [of absolute_storage "''a.webm''"]
  by (simp add: LocalStorage_save_video_bytes_def absolute_storage_def absolute_fs_def
       write_bytes_def Path_parent_def truediv_def Path_of_def startswith_def Path_str_def
       posix_root_def)

section \<open>Facts about durations and reports\<close>

lemma round_half_even_div_bounds:
  assumes "0 < d"
  shows "2 * d * round_half_even_div n d \<le> 2 * n + d"
    and "2 * n - d \<le> 2 * d * round_half_even_div n d"
proof -
  define q r where "q = n div d" and "r = n mod d"
  have n: "n = d * q + r" by (simp add: q_def r_def)
  have r: "0 \<le> r" "r < d" using assms by (simp_all add: r_def)
  define m where "m = round_half_even_div n d"
  have m: "m = q \<and> 2 * r \<le> d \<or> m = q + 1 \<and> d \<le> 2 * r"
    by (auto simp: m_def round_half_even_div_def q_def r_def Let_def)
  have e1: "2 * d * (q + 1) = 2 * (d * q) + 2 * d" by (simp add: algebra_simps)
  have e2: "2 * d * q = 2 * (d * q)" by simp
  from m show "2 * d * round_half_even_div n d \<le> 2 * n + d"
    unfolding m_def [symmetric] using r n e1 e2 by auto
  from m show "2 * n - d \<le> 2 * d * round_half_even_div n d"
    unfolding m_def [symmetric] using r n e1 e2 by auto
qed

lemma significand_bounds:
  fixes a k P :: int
  assumes a: "0 \<le> a" and P: "524288 \<le> P"
  defines "k \<equiv> a div 1000000"
  defines "m \<equiv> round_half_even_div (a * P) 1000000"
  shows "k * P \<le> m" and "m < (k + 1) * P"
proof -
  define r where "r = a mod 1000000"
  have split: "a = 1000000 * k + r" by (simp add: k_def r_def)
  have r: "0 \<le> r" "r \<le> 999999" by (simp_all add: r_def) 
  have rP: "0 \<le> r * P" "r * P \<le> 999999 * P"
    using r P by (simp_all add: mult_right_mono)
  have aP: "a * P = 1000000 * (k * P) + r * P"
    by (simp add: split algebra_simps)
  have up: "2 * 1000000 * m \<le> 2 * (a * P) + 1000000"
    unfolding m_def by (rule round_half_even_div_bounds) simp
  have lo: "2 * (a * P) - 1000000 \<le> 2 * 1000000 * m"
    unfolding m_def by (rule round_half_even_div_bounds) simp
  from lo aP rP show "k * P \<le> m" by arith
  have "(k + 1) * P = k * P + P" by (simp add: algebra_simps)
  with up aP rP P show "m < (k + 1) * P" by arith
qed

lemma exponent_bounds:
  fixes a :: int
  assumes "0 < a" and "a < 2 ^ 34 * 1000000"
  shows "seconds_exponent a \<le> 33" and "- 21 \<le> seconds_exponent a"
proof -
  have "a * 2 ^ 20 < 2 ^ 54 * 1000000" using assms(2) by simp
  then have "a * 2 ^ 20 div 1000000 < 2 ^ 54"
    by (simp add: div_less_iff_less_mult) 
  then have "bitlen (a * 2 ^ 20 div 1000000) \<le> 54"
    by (simp add: bitlen_le_iff_power)
  then show "seconds_exponent a \<le> 33" by (simp add: seconds_exponent_def)
  show "- 21 \<le> seconds_exponent a"
    using bitlen_nonneg [of "a * 2 ^ 20 div 1000000"] by (simp add: seconds_exponent_def)
qed

lemma py_int_total_seconds_pos:
  assumes "0 < d" and "d < 2 ^ 34 * 1000000"
  shows "py_int (total_seconds d) = d div 1000000"
proof -
  define e where "e = seconds_exponent d"
  define P :: int where "P = 2 ^ nat (52 - e)"
  define m where "m = round_half_even_div (d * P) 1000000"
  have e: "e \<le> 33" "- 21 \<le> e"
    unfolding e_def using assms by (rule exponent_bounds)+
  then have "(2::int) ^ 19 \<le> 2 ^ nat (52 - e)"
    by (intro power_increasing) simp_all
  then have P: "524288 \<le> P" by (simp add: P_def)
  have b: "(d div 1000000) * P \<le> m" "m < (d div 1000000 + 1) * P"
    unfolding m_def using assms(1) P by (simp_all add: significand_bounds)
  have ts: "total_seconds d = real_of_int m / real_of_int P"
    using assms(1) e by (simp add: total_seconds_def Let_def e_def [symmetric] P_def m_def)
  have k: "0 \<le> d div 1000000" using assms(1) by (simp add: pos_imp_zdiv_nonneg_iff)
  then have "0 \<le> (d div 1000000) * P" using P by simp
  with b(1) have "0 \<le> m" by simp
  then have "0 \<le> real_of_int m / real_of_int P" using P by simp
  then have "py_int (total_seconds d) = \<lfloor>real_of_int m / real_of_int P\<rfloor>"
    by (simp add: py_int_def ts)
  also have "\<dots> = m div P" by (rule floor_divide_of_int_eq)
  also have "\<dots> = d div 1000000"
  proof -
    have "m = P * (d div 1000000) + (m - P * (d div 1000000))" by simp
    moreover have "0 \<le> m - P * (d div 1000000)" using b(1) by (simp add: mult.commute)
    moreover have "m - P * (d div 1000000) < P" using b(2) by (simp add: algebra_simps)
    ultimately show ?thesis
      by (rule int_div_pos_eq)
  qed
  finally show ?thesis .
qed

lemma total_seconds_minus: "total_seconds (- d) = - total_seconds d"
  by (simp add: total_seconds_def Let_def)

lemma py_int_minus: "py_int (- x) = - py_int x"
  by (auto simp: py_int_def ceiling_def)

lemma py_int_total_seconds_bounded:
  assumes "\<bar>d\<bar> < 2 ^ 34 * 1000000"
  shows "py_int (total_seconds d) = (if 0 \<le> d then d div 1000000 else - ((- d) div 1000000))"
proof -
  consider "d = 0" | "0 < d" | "d < 0" by arith
  then show ?thesis
  proof cases
    case 1
    then show ?thesis by (simp add: total_seconds_def py_int_def)
  next
    case 2
    with assms show ?thesis by (simp add: py_int_total_seconds_pos)
  next
    case 3
    with assms have "py_int (total_seconds (- d)) = (- d) div 1000000"
      by (intro py_int_total_seconds_pos) simp_all
    with 3 show ?thesis by (simp add: total_seconds_minus py_int_minus)
  qed
qed

lemma py_int_total_seconds_eval:
  assumes "0 < d" and "seconds_exponent d = e" and "e \<le> 52"
  shows "py_int (total_seconds d) = round_half_even_div (d * 2 ^ nat (52 - e)) 1000000 div 2 ^ nat (52 - e)"
proof -
  define P :: int where "P = 2 ^ nat (52 - e)"
  define m where "m = round_half_even_div (d * P) 1000000"
  have P: "0 < P" by (simp add: P_def)
  have "0 \<le> 2 * (d * P) - 1000000 + 1000000" using assms(1) P by simp
  have lo: "2 * (d * P) - 1000000 \<le> 2 * 1000000 * m"
    unfolding m_def by (rule round_half_even_div_bounds) simp
  have "0 < d * P" using assms(1) P by simp
  with lo have "0 \<le> m" by arith
  have ts: "total_seconds d = real_of_int m / real_of_int P"
    using assms by (simp add: total_seconds_def Let_def P_def m_def)
  from \<open>0 \<le> m\<close> P have "0 \<le> real_of_int m / real_of_int P" by simp
  then have "py_int (total_seconds d) = \<lfloor>real_of_int m / real_of_int P\<rfloor>"
    by (simp add: py_int_def ts)
  also have "\<dots> = m div P" by (rule floor_divide_of_int_eq)
  finally show ?thesis by (simp add: m_def P_def)
qed

lemma dict_get_setitem_other:
  "k' \<noteq> k \<Longrightarrow> dict_get (dict_setitem k v d) k' dflt = dict_get d k' dflt"
  by (simp add: dict_get_def map_of_dict_setitem)

lemma suspicious_total_summarized:
  "summarize_events events = Inr counts \<Longrightarrow>
   suspicious_total counts = int (length (filter (\<lambda>e. event_type e \<in> set SUSPICIOUS) events))"
proof -
  assume "summarize_events events = Inr counts"
  then have c: "counts = map (\<lambda>k. (k, int (count_type k events))) CATEGORIES"
    by (simp add: summarize_events_counts)
  have "distinct SUSPICIOUS" by (simp add: SUSPICIOUS_def)
  then have "(\<Sum>k\<leftarrow>SUSPICIOUS. count_type k events) =
      length (filter (\<lambda>e. event_type e \<in> set SUSPICIOUS) events)"
    by (rule sum_count_type)
  moreover have "suspicious_total counts = int (\<Sum>k\<leftarrow>SUSPICIOUS. count_type k events)"
    unfolding c suspicious_total_def
    by (simp add: dict_get_def CATEGORIES_def SUSPICIOUS_def)
  ultimately show ?thesis by simp
qed

lemma create_session_keeps_end_time:
  "has_end_time db sid t \<Longrightarrow>
   has_end_time (fst (create_session db payload_candidate_name uuid now)) sid t"
  by (auto simp: has_end_time_def find_one_session_def create_session_def
        insert_one_session_def Let_def split: option.splits)

lemma log_event_keeps_end_time:
  "has_end_time db sid t \<Longrightarrow>
   has_end_time (fst (log_event_after_find db sid' found payload uuid now)) sid t"
  by (auto simp: has_end_time_def find_one_session_def log_event_after_find_def
        insert_one_event_def Let_def split: option.splits)

lemma end_session_keeps_end_time:
  "has_end_time db sid t \<Longrightarrow> \<not> writes_end_time sid (rid, EndSession sid' now, found) \<Longrightarrow>
   has_end_time (fst (end_session_after_find db sid' found now)) sid t"
  by (cases found)
     (auto simp: has_end_time_def find_one_session_def end_session_after_find_def
        update_one_session_def split: option.splits)

lemma upload_video_keeps_end_time:
  "has_end_time db sid t \<Longrightarrow>
   has_end_time (fst (upload_video_after_find db sid' found saved)) sid t"
  by (auto simp: has_end_time_def find_one_session_def upload_video_after_find_def
        update_one_session_def split: option.splits sum.splits)

lemma import_video_keeps_end_time:
  "has_end_time db sid t \<Longrightarrow>
   has_end_time (fst (import_video_after_find db sid' found source_is_file saved)) sid t"
  by (auto simp: has_end_time_def find_one_session_def import_video_after_find_def
        update_one_session_def split: option.splits sum.splits)

lemma found_does_not_write:
  "has_end_time db sid t \<Longrightarrow> looked_up r = Some sid' \<Longrightarrow>
   \<not> writes_end_time sid (rid, r, find_one_session db sid')"
proof (cases r)
  case (EndSession sid'' now)
  assume "has_end_time db sid t" and "looked_up r = Some sid'"
  then show ?thesis
    unfolding EndSession
    by (cases "find_one_session db sid'") (auto simp: has_end_time_def)
qed simp_all

lemma handle_after_find:
  "looked_up r = Some sid' \<Longrightarrow> handle db r = after_find db r (find_one_session db sid')"
  by (cases r)
     (simp_all add: log_event_def end_session_def upload_video_def import_video_def)

lemma handle_one_write:
  "looked_up r = None \<Longrightarrow> has_end_time db sid t \<Longrightarrow> has_end_time (handle db r) sid t"
  by (cases r) (simp_all add: create_session_keeps_end_time)

lemma after_find_keeps_end_time:
  "has_end_time db sid t \<Longrightarrow> \<not> writes_end_time sid (rid, r, found) \<Longrightarrow>
   has_end_time (after_find db r found) sid t"
proof (cases r)
  case (EndSession sid' now)
  assume "has_end_time db sid t" and "\<not> writes_end_time sid (rid, r, found)"
  then show ?thesis
    unfolding EndSession by (simp add: end_session_keeps_end_time)
qed (simp_all add: create_session_keeps_end_time log_event_keeps_end_time
       upload_video_keeps_end_time import_video_keeps_end_time
       log_event_def upload_video_def import_video_def)

lemma handle_keeps_end_time:
  "has_end_time db sid t \<Longrightarrow> has_end_time (handle db r) sid t"
proof (cases "looked_up r")
  case None
  assume "has_end_time db sid t"
  with None show ?thesis by (simp add: handle_one_write)
next
  case (Some sid')
  assume h: "has_end_time db sid t"
  then have "\<not> writes_end_time sid (0, r, find_one_session db sid')"
    using Some by (rule found_does_not_write)
  with h have "has_end_time (after_find db r (find_one_session db sid')) sid t"
    by (rule after_find_keeps_end_time)
  with Some show ?thesis by (simp add: handle_after_find)
qed

lemma serve_keeps_end_time:
  "has_end_time db sid t \<Longrightarrow> has_end_time (serve db requests) sid t"
  by (induction requests arbitrary: db) (simp_all add: handle_keeps_end_time)

lemma step_keeps_settled:
  assumes "settled s sid t"
  shows "settled (step s a) sid t"
proof (cases a)
  case (Start rid r)
  show ?thesis
  proof (cases "looked_up r")
    case None
    with assms Start show ?thesis
      by (simp add: settled_def handle_one_write)
  next
    case (Some sid')
    from assms have "has_end_time (server_db s) sid t" by (simp add: settled_def)
    then have "\<not> writes_end_time sid (rid, r, find_one_session (server_db s) sid')"
      using Some by (rule found_does_not_write)
    with assms Start Some show ?thesis
      by (simp add: settled_def)
  qed
next
  case (Resume rid)
  show ?thesis
  proof (cases "find (\<lambda>p. fst p = rid) (server_suspended s)")
    case None
    with assms Resume show ?thesis by simp
  next
    case (Some p)
    then have mem: "p \<in> set (server_suspended s)"
      by (auto simp: find_Some_iff)
    with assms have nw: "\<not> writes_end_time sid p"
      by (auto simp: settled_def list_ex_iff)
    obtain rid' r found where p: "p = (rid', r, found)" by (cases p)
    from assms have "has_end_time (server_db s) sid t" by (simp add: settled_def)
    moreover from nw have "\<not> writes_end_time sid (rid', r, found)" by (simp add: p)
    ultimately have "has_end_time (after_find (server_db s) r found) sid t"
      by (rule after_find_keeps_end_time)
    moreover have "\<not> list_ex (writes_end_time sid) (remove1 p (server_suspended s))"
      using assms by (auto simp: settled_def list_ex_iff dest: notin_set_remove1)
    ultimately show ?thesis
      using Resume Some p by (simp add: settled_def)
  qed
qed

lemma run_keeps_settled:
  "settled s sid t \<Longrightarrow> settled (run s actions) sid t"
  by (induction actions arbitrary: s) (simp_all add: step_keeps_settled)

lemma run_one_at_a_time:
  "server_suspended s = [] \<Longrightarrow>
   run s (one_at_a_time requests) = s\<lparr>server_db := serve (server_db s) requests\<rparr>"
proof (induction requests arbitrary: s)
  case Nil
  then show ?case by simp
next
  case (Cons r rs)
  have "step (step s (Start 0 r)) (Resume 0) = s\<lparr>server_db := handle (server_db s) r\<rparr>"
  proof (cases "looked_up r")
    case None
    with Cons.prems show ?thesis by simp
  next
    case (Some sid')
    with Cons.prems show ?thesis by (simp add: handle_after_find)
  qed
  moreover have "server_suspended (s\<lparr>server_db := handle (server_db s) r\<rparr>) = []"
    using Cons.prems by simp
  ultimately show ?case
    using Cons.IH [of "s\<lparr>server_db := handle (server_db s) r\<rparr>"] by simp
qed

lemma update_one_session_found:
  "find_one_session db sid = Some doc \<Longrightarrow>
   update_one_session db sid f =
     db\<lparr>sessions_collection := (sessions_collection db)(sid \<mapsto> f doc)\<rparr>"
  by (simp add: update_one_session_def find_one_session_def)

lemma example_db_lookup:
  "find_one_session example_db ''s1'' = Some example_doc"
  "find_one_session example_db ''s2'' = Some open_doc"
  "find_one_session example_db ''nobody'' = None"
  by (simp_all add: find_one_session_def example_db_def)

lemma example_db_events:
  "find_events example_db ''s1'' =
     [(event_of_type ''phone_detected'')\<lparr>event_session_id := ''s1''\<rparr>,
      (event_of_type ''looking_away'')\<lparr>event_session_id := ''s1''\<rparr>,
      (event_of_type ''yawning'')\<lparr>event_session_id := ''s1''\<rparr>]"
  by (simp add: find_events_def example_db_def event_of_type_def)

lemma example_db_counts:
  "summarize_events (find_events example_db ''s1'') =
     Inr [(''focus_lost'', 0), (''looking_away'', 1), (''no_face'', 0), (''multiple_faces'', 0),
          (''phone_detected'', 1), (''notes_detected'', 0), (''device_detected'', 0)]"
  by (simp add: example_db_events summarize_events_counts CATEGORIES_def count_type_def
        event_of_type_def)

lemma example_db_report:
  "get_report example_db ''s1'' (Inr ''reports/report_s1.html'') =
     Inr \<lparr>report_candidate_name = ''Ada'', report_session_id = ''s1'',
          interview_duration_seconds = 125, focus_lost_count = 0,
          looking_away_count = 1, no_face_segments = 0,
          multiple_faces_count = 0, phone_detected_count = 1,
          notes_detected_count = 0, device_detected_count = 0,
          suspicious_events_count = 1, integrity_score = 88\<rparr>"
  by (simp add: get_report_def example_db_lookup example_db_counts example_doc_def
        get_report_duration_seconds_def py_int_total_seconds_bounded dict_get_def
        suspicious_total_def compute_integrity_score_def EVENT_WEIGHTS_def)

lemma floor_micro: "\<lfloor>real_of_int d / 1000000\<rfloor> = d div 1000000"
  using floor_divide_of_int_eq [of d 1000000] by simp

lemma ceiling_micro: "\<lceil>real_of_int d / 1000000\<rceil> = - ((- d) div 1000000)"
  using floor_divide_of_int_eq [of "- d" 1000000] by (simp add: ceiling_def)

lemma long_exponent: "seconds_exponent 34359738367999999 = 34"
  by code_simp

lemma long_significand:
  "round_half_even_div (34359738367999999 * 2 ^ nat (52 - 34)) 1000000 div 2 ^ nat (52 - 34)
     = 34359738368"
  by code_simp

lemma end_session_after_find_sets:
  "find_one_session db sid = Some doc \<Longrightarrow> doc_end_time found = None \<Longrightarrow>
   has_end_time (fst (end_session_after_find db sid (Some found) now)) sid now"
  by (simp add: end_session_after_find_def update_one_session_found has_end_time_def
        find_one_session_def)

lemma overlapping_ends_run:
  "run example_server overlapping_ends =
     \<lparr>server_db = fst (end_session example_db ''s2'' 90000000),
      server_suspended = [(2, EndSession ''s2'' 95000000, Some open_doc)]\<rparr>"
  by (simp add: example_server_def overlapping_ends_def example_db_lookup end_session_def)

lemma end_s2: "has_end_time (fst (end_session example_db ''s2'' now)) ''s2'' now"
proof -
  have "end_session example_db ''s2'' now =
      (update_one_session example_db ''s2'' (\<lambda>d. d\<lparr>doc_end_time := Some now\<rparr>),
       Inr (session_response ''s2'' (open_doc\<lparr>doc_end_time := Some now\<rparr>)))"
    unfolding end_session_def end_session_after_find_def example_db_lookup
    by (simp add: open_doc_def)
  then show ?thesis
    using example_db_lookup(2)
    by (simp add: update_one_session_found has_end_time_def find_one_session_def)
qed

section \<open>The claims\<close>

text \<open>
  C1. For every counts dict (distinct keys, as every Python dict has),
  \<open>compute_integrity_score\<close> returns the maximum of 0 and 100 minus the sum over the
  seven categories of count times weight, with the weights focus_lost 2, looking_away 2,
  no_face 5, multiple_faces 10, phone_detected 10, notes_detected 5, device_detected 8;
  a category missing from the dict counts as 0 and a key outside the table weighs 0.
  The counts of two focus_lost events and one phone_detected event, all others 0, give
  86, and those of 25 multiple_faces events give 0.
\<close>

theorem compute_integrity_score_formula:
  "(\<forall>counts. distinct (map fst counts) \<longrightarrow>
      compute_integrity_score counts =
        max 0 (100 -
          (dict_get counts ''focus_lost'' 0 * 2 + dict_get counts ''looking_away'' 0 * 2 +
           dict_get counts ''no_face'' 0 * 5 + dict_get counts ''multiple_faces'' 0 * 10 +
           dict_get counts ''phone_detected'' 0 * 10 + dict_get counts ''notes_detected'' 0 * 5 +
           dict_get counts ''device_detected'' 0 * 8)))
   \<and> summarize_events
         [event_of_type ''focus_lost'', event_of_type ''focus_lost'',
          event_of_type ''phone_detected''] =
       Inr [(''focus_lost'', 2), (''looking_away'', 0), (''no_face'', 0),
            (''multiple_faces'', 0), (''phone_detected'', 1), (''notes_detected'', 0),
            (''device_detected'', 0)]
   \<and> compute_integrity_score
         [(''focus_lost'', 2), (''looking_away'', 0), (''no_face'', 0),
          (''multiple_faces'', 0), (''phone_detected'', 1), (''notes_detected'', 0),
          (''device_detected'', 0)] = 86
   \<and> summarize_events (replicate 25 (event_of_type ''multiple_faces'')) =
       Inr [(''focus_lost'', 0), (''looking_away'', 0), (''no_face'', 0),
            (''multiple_faces'', 25), (''phone_detected'', 0), (''notes_detected'', 0),
            (''device_detected'', 0)]
   \<and> compute_integrity_score
         [(''focus_lost'', 0), (''looking_away'', 0), (''no_face'', 0),
          (''multiple_faces'', 25), (''phone_detected'', 0), (''notes_detected'', 0),
          (''device_detected'', 0)] = 0"
proof (intro conjI allI impI)
  fix counts :: "(string, int) dict"
  assume "distinct (map fst counts)"
  then show "compute_integrity_score counts =
        max 0 (100 -
          (dict_get counts ''focus_lost'' 0 * 2 + dict_get counts ''looking_away'' 0 * 2 +
           dict_get counts ''no_face'' 0 * 5 + dict_get counts ''multiple_faces'' 0 * 10 +
           dict_get counts ''phone_detected'' 0 * 10 + dict_get counts ''notes_detected'' 0 * 5 +
           dict_get counts ''device_detected'' 0 * 8))"
    by (simp only: compute_integrity_score_def score_loop_penalty penalty_by_category)
next
  have "[event_of_type ''focus_lost'', event_of_type ''focus_lost'',
          event_of_type ''phone_detected''] =
        replicate 2 (event_of_type ''focus_lost'') @ replicate 1 (event_of_type ''phone_detected'')"
    by (simp add: numeral_2_eq_2)
  then show "summarize_events
         [event_of_type ''focus_lost'', event_of_type ''focus_lost'',
          event_of_type ''phone_detected''] =
       Inr [(''focus_lost'', 2), (''looking_away'', 0), (''no_face'', 0),
            (''multiple_faces'', 0), (''phone_detected'', 1), (''notes_detected'', 0),
            (''device_detected'', 0)]"
    by (simp add: summarize_events_counts CATEGORIES_def count_type_def event_of_type_def)
next
  show "compute_integrity_score
         [(''focus_lost'', 2), (''looking_away'', 0), (''no_face'', 0),
          (''multiple_faces'', 0), (''phone_detected'', 1), (''notes_detected'', 0),
          (''device_detected'', 0)] = 86"
    by (simp add: compute_integrity_score_def weight_cases)
next
  show "summarize_events (replicate 25 (event_of_type ''multiple_faces'')) =
       Inr [(''focus_lost'', 0), (''looking_away'', 0), (''no_face'', 0),
            (''multiple_faces'', 25), (''phone_detected'', 0), (''notes_detected'', 0),
            (''device_detected'', 0)]"
    by (simp add: summarize_events_counts CATEGORIES_def count_type_replicate)
next
  show "compute_integrity_score
         [(''focus_lost'', 0), (''looking_away'', 0), (''no_face'', 0),
          (''multiple_faces'', 25), (''phone_detected'', 0), (''notes_detected'', 0),
          (''device_detected'', 0)] = 0"
    by (simp add: compute_integrity_score_def weight_cases)
qed

theorem compute_integrity_score_formula_witness:
  "distinct (map fst [(''no_face'', 12::int), (''unknown_tag'', 7)])
   \<and> compute_integrity_score [(''no_face'', 12), (''unknown_tag'', 7)] = 40"
  using compute_integrity_score_formula
          [THEN conjunct1, rule_format, of "[(''no_face'', 12), (''unknown_tag'', 7)]"]
  by (simp add: dict_get_def)

text \<open>
  C2, as amended. On the remote backend, whenever \<open>save_video_bytes\<close> or
  \<open>save_report_bytes\<close> returns, \<open>open_bytes\<close> on the reference it returned gives back
  exactly the data, the empty byte string included, and the save returns whenever the
  blob store accepts the put. On the local backend a save returns the path of the file
  it wrote, not a key: whenever it returns, \<open>open_bytes\<close> on the namespaced key
  (\<open>videos/\<close> or \<open>reports/\<close> followed by the key that was saved) gives back exactly the
  data, and so does \<open>open_bytes\<close> on the returned reference when the directory of the
  saved file was given as an absolute path.
\<close>

theorem storage_round_trip:
  "(DetaStorage_save_video_bytes deta key data = Inr (ref, deta') \<longrightarrow>
      DetaStorage_open_bytes deta' ref = Inr data)
   \<and> (DetaStorage_save_report_bytes deta key data content_type = Inr (ref, deta') \<longrightarrow>
      DetaStorage_open_bytes deta' ref = Inr data)
   \<and> (drive_accepts (videos deta) key data \<longrightarrow>
      (\<exists>deta'. DetaStorage_save_video_bytes deta key data = Inr (''videos/'' @ key, deta')))
   \<and> (drive_accepts (reports deta) key data \<longrightarrow>
      (\<exists>deta'. DetaStorage_save_report_bytes deta key data content_type =
         Inr (''reports/'' @ key, deta')))
   \<and> (LocalStorage_save_video_bytes local fs key data = Inr (ref, fs') \<longrightarrow>
      ref = Path_str (truediv (video_dir local) key) \<and>
      LocalStorage_open_bytes local fs' (''videos/'' @ key) = Inr data)
   \<and> (LocalStorage_save_report_bytes local fs key data content_type = Inr (ref, fs') \<longrightarrow>
      ref = Path_str (truediv (report_dir local) key) \<and>
      LocalStorage_open_bytes local fs' (''reports/'' @ key) = Inr data)
   \<and> (startswith vdir ''/'' \<and> video_dir local = Path_of vdir \<and>
       LocalStorage_save_video_bytes local fs key data = Inr (ref, fs') \<longrightarrow>
      LocalStorage_open_bytes local fs' ref = Inr data)
   \<and> (startswith rdir ''/'' \<and> report_dir local = Path_of rdir \<and>
       LocalStorage_save_report_bytes local fs key data content_type = Inr (ref, fs') \<longrightarrow>
      LocalStorage_open_bytes local fs' ref = Inr data)"
proof (intro conjI impI)
  assume "DetaStorage_save_video_bytes deta key data = Inr (ref, deta')"
  then have "ref = ''videos/'' @ key" and "drive_blobs (videos deta') key = Some data"
    by (auto simp: DetaStorage_save_video_bytes_def Drive_put_def split: if_splits)
  then show "DetaStorage_open_bytes deta' ref = Inr data"
    using bucket_prefix [of "''videos''" deta' key]
    by (simp add: DetaStorage_open_bytes_def Drive_get_def)
next
  assume "DetaStorage_save_report_bytes deta key data content_type = Inr (ref, deta')"
  then have "ref = ''reports/'' @ key" and "drive_blobs (reports deta') key = Some data"
    by (auto simp: DetaStorage_save_report_bytes_def Drive_put_def split: if_splits)
  then show "DetaStorage_open_bytes deta' ref = Inr data"
    using bucket_prefix [of "''reports''" deta' key]
    by (simp add: DetaStorage_open_bytes_def Drive_get_def)
next
  assume "drive_accepts (videos deta) key data"
  then show "\<exists>deta'. DetaStorage_save_video_bytes deta key data = Inr (''videos/'' @ key, deta')"
    by (simp add: DetaStorage_save_video_bytes_def Drive_put_def)
next
  assume "drive_accepts (reports deta) key data"
  then show "\<exists>deta'. DetaStorage_save_report_bytes deta key data content_type =
         Inr (''reports/'' @ key, deta')"
    by (simp add: DetaStorage_save_report_bytes_def Drive_put_def)
next
  assume a: "LocalStorage_save_video_bytes local fs key data = Inr (ref, fs')"
  then show "ref = Path_str (truediv (video_dir local) key)"
    unfolding LocalStorage_save_video_bytes_def resolve_videos by (auto split: sum.splits)
  from a have "write_bytes (truediv (video_dir local) key) data fs = Inr fs'"
    unfolding LocalStorage_save_video_bytes_def resolve_videos by (auto split: sum.splits)
  then show "LocalStorage_open_bytes local fs' (''videos/'' @ key) = Inr data"
    unfolding LocalStorage_open_bytes_def resolve_videos by (simp add: read_after_write)
next
  assume a: "LocalStorage_save_report_bytes local fs key data content_type = Inr (ref, fs')"
  then show "ref = Path_str (truediv (report_dir local) key)"
    unfolding LocalStorage_save_report_bytes_def resolve_reports by (auto split: sum.splits)
  from a have "write_bytes (truediv (report_dir local) key) data fs = Inr fs'"
    unfolding LocalStorage_save_report_bytes_def resolve_reports by (auto split: sum.splits)
  then show "LocalStorage_open_bytes local fs' (''reports/'' @ key) = Inr data"
    unfolding LocalStorage_open_bytes_def resolve_reports by (simp add: read_after_write)
next
  assume a: "startswith vdir ''/'' \<and> video_dir local = Path_of vdir \<and>
       LocalStorage_save_video_bytes local fs key data = Inr (ref, fs')"
  then have w: "write_bytes (truediv (Path_of vdir) key) data fs = Inr fs'"
    and r: "ref = Path_str (truediv (Path_of vdir) key)"
    unfolding LocalStorage_save_video_bytes_def resolve_videos by (auto split: sum.splits)
  from a have "LocalStorage_resolve local ref = Inr (truediv (Path_of vdir) key)"
    unfolding r by (intro resolve_saved_reference) simp
  with w show "LocalStorage_open_bytes local fs' ref = Inr data"
    by (simp add: LocalStorage_open_bytes_def read_after_write)
next
  assume a: "startswith rdir ''/'' \<and> report_dir local = Path_of rdir \<and>
       LocalStorage_save_report_bytes local fs key data content_type = Inr (ref, fs')"
  then have w: "write_bytes (truediv (Path_of rdir) key) data fs = Inr fs'"
    and r: "ref = Path_str (truediv (Path_of rdir) key)"
    unfolding LocalStorage_save_report_bytes_def resolve_reports by (auto split: sum.splits)
  from a have "LocalStorage_resolve local ref = Inr (truediv (Path_of rdir) key)"
    unfolding r by (intro resolve_saved_reference) simp
  with w show "LocalStorage_open_bytes local fs' ref = Inr data"
    by (simp add: LocalStorage_open_bytes_def read_after_write)
qed

theorem storage_round_trip_witness:
  "DetaStorage_save_video_bytes example_deta ''a.webm'' [] =
     Inr (''videos/a.webm'',
          example_deta\<lparr>videos := example_drive\<lparr>drive_blobs := [''a.webm'' \<mapsto> []]\<rparr>\<rparr>)
   \<and> DetaStorage_open_bytes
       (example_deta\<lparr>videos := example_drive\<lparr>drive_blobs := [''a.webm'' \<mapsto> []]\<rparr>\<rparr>)
       ''videos/a.webm'' = Inr []
   \<and> LocalStorage_save_video_bytes example_storage example_fs ''a.webm'' [] =
     Inr (''data/videos/a.webm'',
          example_fs\<lparr>fs_files := [truediv VIDEO_DIR ''a.webm'' \<mapsto> []]\<rparr>)
   \<and> LocalStorage_open_bytes example_storage
       (example_fs\<lparr>fs_files := [truediv VIDEO_DIR ''a.webm'' \<mapsto> []]\<rparr>)
       ''videos/a.webm'' = Inr []
   \<and> startswith ''/srv/videos'' ''/''
   \<and> video_dir absolute_storage = Path_of ''/srv/videos''
   \<and> LocalStorage_save_video_bytes absolute_storage absolute_fs ''a.webm'' [] =
     Inr (''/srv/videos/a.webm'',
          absolute_fs\<lparr>fs_files := [Path_of ''/srv/videos/a.webm'' \<mapsto> []]\<rparr>)
   \<and> LocalStorage_open_bytes absolute_storage
       (absolute_fs\<lparr>fs_files := [Path_of ''/srv/videos/a.webm'' \<mapsto> []]\<rparr>)
       ''/srv/videos/a.webm'' = Inr []"
proof -
  have d: "DetaStorage_save_video_bytes example_deta ''a.webm'' [] =
     Inr (''videos/a.webm'',
          example_deta\<lparr>videos := example_drive\<lparr>drive_blobs := [''a.webm'' \<mapsto> []]\<rparr>\<rparr>)"
    by (simp add: DetaStorage_save_video_bytes_def Drive_put_def example_deta_def example_drive_def)
  have l: "LocalStorage_save_video_bytes example_storage example_fs ''a.webm'' [] =
     Inr (''data/videos/a.webm'',
          example_fs\<lparr>fs_files := [truediv VIDEO_DIR ''a.webm'' \<mapsto> []]\<rparr>)"
    by (rule example_save)
  have s: "LocalStorage_save_video_bytes absolute_storage absolute_fs ''a.webm'' [] =
     Inr (''/srv/videos/a.webm'',
          absolute_fs\<lparr>fs_files := [Path_of ''/srv/videos/a.webm'' \<mapsto> []]\<rparr>)"
    by (rule absolute_save)
  have p: "startswith ''/srv/videos'' ''/'' \<and> video_dir absolute_storage = Path_of ''/srv/videos''"
    by (simp add: startswith_def absolute_storage_def)
  note rt = storage_round_trip [where deta = example_deta and key = "''a.webm''" and data = "[]"
      and local = example_storage and fs = example_fs]
  from rt [THEN conjunct1, rule_format, OF d]
  have od: "DetaStorage_open_bytes
       (example_deta\<lparr>videos := example_drive\<lparr>drive_blobs := [''a.webm'' \<mapsto> []]\<rparr>\<rparr>)
       ''videos/a.webm'' = Inr []" .
  from rt [THEN conjunct2, THEN conjunct2, THEN conjunct2, THEN conjunct2, THEN conjunct1,
           rule_format, OF l]
  have ol: "LocalStorage_open_bytes example_storage
       (example_fs\<lparr>fs_files := [truediv VIDEO_DIR ''a.webm'' \<mapsto> []]\<rparr>)
       (''videos/'' @ ''a.webm'') = Inr []" by simp
  from storage_round_trip [where vdir = "''/srv/videos''" and local = absolute_storage
      and fs = absolute_fs and key = "''a.webm''" and data = "[]",
      THEN conjunct2, THEN conjunct2, THEN conjunct2, THEN conjunct2, THEN conjunct2,
      THEN conjunct2, THEN conjunct1, rule_format, OF conjI [OF p [THEN conjunct1]
        conjI [OF p [THEN conjunct2] s]]]
  have oa: "LocalStorage_open_bytes absolute_storage
       (absolute_fs\<lparr>fs_files := [Path_of ''/srv/videos/a.webm'' \<mapsto> []]\<rparr>)
       ''/srv/videos/a.webm'' = Inr []" .
  from d od l ol p s oa show ?thesis by simp
qed

text \<open>
  C2 as stated fails on the local backend: with the directories of \<open>main.py\<close>,
  \<open>save_video_bytes\<close> of \<open>a.webm\<close> returns the reference \<open>data/videos/a.webm\<close>, which
  \<open>open_bytes\<close> resolves below the report directory, where no such file is.
\<close>

theorem local_reference_round_trip_counterexample:
  "LocalStorage_init VIDEO_DIR REPORT_DIR \<lparr>fs_dirs = {Path_of ''.''}, fs_files = Map.empty\<rparr> =
     Inr (example_storage, example_fs)
   \<and> LocalStorage_save_video_bytes example_storage example_fs ''a.webm'' [1, 2, 3] =
     Inr (''data/videos/a.webm'',
          example_fs\<lparr>fs_files := [truediv VIDEO_DIR ''a.webm'' \<mapsto> [1, 2, 3]]\<rparr>)
   \<and> LocalStorage_open_bytes example_storage
       (example_fs\<lparr>fs_files := [truediv VIDEO_DIR ''a.webm'' \<mapsto> [1, 2, 3]]\<rparr>)
       ''data/videos/a.webm'' = Inl FileNotFoundError"
proof (intro conjI)
  show "LocalStorage_open_bytes example_storage
       (example_fs\<lparr>fs_files := [truediv VIDEO_DIR ''a.webm'' \<mapsto> [1, 2, 3]]\<rparr>)
       ''data/videos/a.webm'' = Inl FileNotFoundError"
    by (simp add: LocalStorage_open_bytes_def LocalStorage_resolve_def example_storage_def
        example_fs_def dirs_eval read_bytes_def truediv_def Path_of_def startswith_def posix_root_def)
qed (rule example_init, rule example_save)

text \<open>
  C3. For every session, counts dict and score, the CSV document has exactly two rows,
  the header row and one data row of the same length, and the data row holds the
  candidate name, the session id, the duration, the seven category counts, the
  aggregate suspicious-event count (the sum of the four suspicious counts) and the
  integrity score. For every stored session, \<open>download_report_csv\<close> returns this
  document for the counts and the score of the session's events, whenever the storage
  backend saves it.
\<close>

theorem build_csv_report_content_rows:
  "build_csv_report_content session counts score =
     [csv_header,
      [Text (candidate_name session),
       Text (str_optional (session_id session)),
       Number (write_html_report_duration_seconds session),
       Number (dict_get counts ''focus_lost'' 0),
       Number (dict_get counts ''looking_away'' 0),
       Number (dict_get counts ''no_face'' 0),
       Number (dict_get counts ''multiple_faces'' 0),
       Number (dict_get counts ''phone_detected'' 0),
       Number (dict_get counts ''notes_detected'' 0),
       Number (dict_get counts ''device_detected'' 0),
       Number (dict_get counts ''multiple_faces'' 0 + dict_get counts ''phone_detected'' 0 +
               dict_get counts ''notes_detected'' 0 + dict_get counts ''device_detected'' 0),
       Number score]]
   \<and> length (build_csv_report_content session counts score) = 2
   \<and> length (build_csv_report_content session counts score ! 1) = length csv_header
   \<and> (find_one_session db sid = Some doc \<and> saved = Inr saved_ref \<longrightarrow>
        (\<exists>cs. summarize_events (find_events db sid) = Inr cs
           \<and> download_report_csv db sid saved =
               Inr (build_csv_report_content (session_obj sid doc) cs
                      (compute_integrity_score cs))))"
proof (intro conjI impI)
  assume a: "find_one_session db sid = Some doc \<and> saved = Inr saved_ref"
  obtain cs where cs: "summarize_events (find_events db sid) = Inr cs"
    by (simp add: summarize_events_counts)
  with a have "download_report_csv db sid saved =
               Inr (build_csv_report_content (session_obj sid doc) cs
                      (compute_integrity_score cs))"
    by (simp add: download_report_csv_def)
  with cs show "\<exists>cs. summarize_events (find_events db sid) = Inr cs
           \<and> download_report_csv db sid saved =
               Inr (build_csv_report_content (session_obj sid doc) cs
                      (compute_integrity_score cs))"
    by blast
qed (simp_all add: build_csv_report_content_def suspicious_total_def csv_header_def)

theorem build_csv_report_content_rows_witness:
  "find_one_session example_db ''s1'' = Some example_doc
   \<and> download_report_csv example_db ''s1'' (Inr ''reports/report_s1.csv'') =
       Inr [csv_header,
            [Text ''Ada'', Text ''s1'', Number 125, Number 0, Number 1, Number 0,
             Number 0, Number 1, Number 0, Number 0, Number 1, Number 88]]"
proof -
  have a: "find_one_session example_db ''s1'' = Some example_doc
      \<and> Inr ''reports/report_s1.csv'' = (Inr ''reports/report_s1.csv'' :: py_error + string)"
    by (simp add: example_db_lookup)
  from build_csv_report_content_rows [where db = example_db and sid = "''s1''" and doc = example_doc
        and saved = "Inr ''reports/report_s1.csv''" and saved_ref = "''reports/report_s1.csv''",
      THEN conjunct2, THEN conjunct2, THEN conjunct2, rule_format, OF a]
  have "download_report_csv example_db ''s1'' (Inr ''reports/report_s1.csv'') =
      Inr (build_csv_report_content (session_obj ''s1'' example_doc)
             [(''focus_lost'', 0), (''looking_away'', 1), (''no_face'', 0), (''multiple_faces'', 0),
              (''phone_detected'', 1), (''notes_detected'', 0), (''device_detected'', 0)]
             (compute_integrity_score
               [(''focus_lost'', 0), (''looking_away'', 1), (''no_face'', 0), (''multiple_faces'', 0),
                (''phone_detected'', 1), (''notes_detected'', 0), (''device_detected'', 0)]))"
    by (simp add: example_db_counts)
  then show ?thesis
    by (simp add: example_db_lookup build_csv_report_content_def session_obj_def example_doc_def
          str_optional_def write_html_report_duration_seconds_def py_int_total_seconds_bounded
          dict_get_def suspicious_total_def compute_integrity_score_def EVENT_WEIGHTS_def)
qed

text \<open>
  C4. For every list of events, \<open>summarize_events\<close> returns a dict whose keys are exactly
  the seven fixed category tags (with every count 0 when no event matches a tag), whose
  values are not negative, and whose values sum to at most the number of events, with
  equality if and only if the type of every event is one of the seven tags.
\<close>

theorem summarize_events_keys_and_total:
  "\<exists>counts. summarize_events events = Inr counts
     \<and> map fst counts = CATEGORIES
     \<and> (\<forall>v\<in>set (map snd counts). 0 \<le> v)
     \<and> sum_list (map snd counts) \<le> int (length events)
     \<and> (sum_list (map snd counts) = int (length events) \<longleftrightarrow>
          (\<forall>e\<in>set events. event_type e \<in> set CATEGORIES))
     \<and> ((\<forall>e\<in>set events. event_type e \<notin> set CATEGORIES) \<longrightarrow> counts = initial_counts)"
proof -
  let ?counts = "map (\<lambda>k. (k, int (count_type k events))) CATEGORIES"
  have run: "summarize_events events = Inr ?counts" by (rule summarize_events_counts)
  have keys: "map fst ?counts = CATEGORIES" by (simp add: comp_def)
  have nonneg: "\<forall>v\<in>set (map snd ?counts). 0 \<le> v" by auto
  have total: "sum_list (map snd ?counts) =
      int (length (filter (\<lambda>e. event_type e \<in> set CATEGORIES) events))"
    by (rule summarize_events_total_count)
  have le: "sum_list (map snd ?counts) \<le> int (length events)"
    unfolding total by simp
  have eq: "sum_list (map snd ?counts) = int (length events) \<longleftrightarrow>
      (\<forall>e\<in>set events. event_type e \<in> set CATEGORIES)"
    unfolding total by (simp add: length_filter_eq_length)
  have zero: "?counts = initial_counts" if "\<forall>e\<in>set events. event_type e \<notin> set CATEGORIES"
  proof -
    have "count_type k events = 0" if "k \<in> set CATEGORIES" for k
      using that \<open>\<forall>e\<in>set events. event_type e \<notin> set CATEGORIES\<close>
      by (intro count_type_zero) auto
    then show ?thesis by (simp add: CATEGORIES_def initial_counts_def)
  qed
  from run keys nonneg le eq zero show ?thesis by blast
qed

theorem summarize_events_keys_and_total_witness:
  "summarize_events [event_of_type ''no_face'', event_of_type ''yawning''] =
     Inr [(''focus_lost'', 0), (''looking_away'', 0), (''no_face'', 1), (''multiple_faces'', 0),
          (''phone_detected'', 0), (''notes_detected'', 0), (''device_detected'', 0)]
   \<and> sum_list (map snd [(''focus_lost'', 0::int), (''looking_away'', 0), (''no_face'', 1),
          (''multiple_faces'', 0), (''phone_detected'', 0), (''notes_detected'', 0),
          (''device_detected'', 0)]) < int (length [event_of_type ''no_face'', event_of_type ''yawning''])
   \<and> event_type (event_of_type ''yawning'') \<notin> set CATEGORIES
   \<and> summarize_events [event_of_type ''yawning''] = Inr initial_counts"
proof -
  have a: "summarize_events [event_of_type ''no_face'', event_of_type ''yawning''] =
     Inr [(''focus_lost'', 0), (''looking_away'', 0), (''no_face'', 1), (''multiple_faces'', 0),
          (''phone_detected'', 0), (''notes_detected'', 0), (''device_detected'', 0)]"
    by (simp add: summarize_events_counts CATEGORIES_def count_type_def event_of_type_def)
  have b: "event_type (event_of_type ''yawning'') \<notin> set CATEGORIES"
    by (simp add: CATEGORIES_def event_of_type_def)
  from summarize_events_keys_and_total [of "[event_of_type ''yawning'']"] b
  have c: "summarize_events [event_of_type ''yawning''] = Inr initial_counts" by auto
  from a b c show ?thesis by simp
qed

text \<open>
  C5, as amended. The duration is 0 when \<open>end_time\<close> is \<open>None\<close>. Otherwise, for a start
  and an end less than \<open>2**34\<close> seconds (about 544 years) apart, it is the difference
  \<open>end_time - start_time\<close> in seconds with the fraction dropped, rounding toward zero:
  the floor of the difference, and not negative, whenever \<open>start_time \<le> end_time\<close>,
  and its ceiling when the end lies before the start. A session that ends 125 seconds
  after its start has duration 125. The handler \<open>get_report\<close> computes the same number
  from the stored document as \<open>write_html_report\<close> does from the session built from it,
  and answers with it.
\<close>

theorem duration_seconds_truncates:
  "(end_time session = None \<longrightarrow> write_html_report_duration_seconds session = 0)
   \<and> (end_time session = Some e \<and> start_time session \<le> e
        \<and> e - start_time session < 2 ^ 34 * 1000000 \<longrightarrow>
        write_html_report_duration_seconds session =
          \<lfloor>real_of_int (e - start_time session) / 1000000\<rfloor>
        \<and> write_html_report_duration_seconds session = (e - start_time session) div 1000000
        \<and> 0 \<le> write_html_report_duration_seconds session)
   \<and> (end_time session = Some e \<and> e < start_time session
        \<and> start_time session - e < 2 ^ 34 * 1000000 \<longrightarrow>
        write_html_report_duration_seconds session =
          \<lceil>real_of_int (e - start_time session) / 1000000\<rceil>
        \<and> write_html_report_duration_seconds session = - ((start_time session - e) div 1000000))
   \<and> (end_time session = Some (start_time session + 125 * 1000000) \<longrightarrow>
        write_html_report_duration_seconds session = 125)
   \<and> get_report_duration_seconds session_doc =
        write_html_report_duration_seconds (session_obj sid session_doc)
   \<and> (get_report db sid saved = Inr r \<longrightarrow>
        (\<exists>doc. find_one_session db sid = Some doc
           \<and> interview_duration_seconds r =
               write_html_report_duration_seconds (session_obj sid doc)))"
proof (intro conjI impI)
  assume "end_time session = None"
  then show "write_html_report_duration_seconds session = 0"
    by (simp add: write_html_report_duration_seconds_def)
next
  assume a: "end_time session = Some e \<and> start_time session \<le> e
        \<and> e - start_time session < 2 ^ 34 * 1000000"
  then have "\<bar>e - start_time session\<bar> < 2 ^ 34 * 1000000" by simp
  then have "py_int (total_seconds (e - start_time session)) =
      (e - start_time session) div 1000000"
    using a by (simp add: py_int_total_seconds_bounded)
  with a show eq: "write_html_report_duration_seconds session =
      (e - start_time session) div 1000000"
    by (simp add: write_html_report_duration_seconds_def)
  then show "write_html_report_duration_seconds session =
      \<lfloor>real_of_int (e - start_time session) / 1000000\<rfloor>"
    by (simp only: floor_micro)
  from a show "0 \<le> write_html_report_duration_seconds session"
    unfolding eq by (simp add: pos_imp_zdiv_nonneg_iff)
next
  assume a: "end_time session = Some e \<and> e < start_time session
        \<and> start_time session - e < 2 ^ 34 * 1000000"
  then have "\<bar>e - start_time session\<bar> < 2 ^ 34 * 1000000" by simp
  then have "py_int (total_seconds (e - start_time session)) =
      - ((start_time session - e) div 1000000)"
    using a by (simp add: py_int_total_seconds_bounded)
  with a show eq: "write_html_report_duration_seconds session =
      - ((start_time session - e) div 1000000)"
    by (simp add: write_html_report_duration_seconds_def)
  then show "write_html_report_duration_seconds session =
      \<lceil>real_of_int (e - start_time session) / 1000000\<rceil>"
    by (simp only: ceiling_micro minus_diff_eq)
next
  assume "end_time session = Some (start_time session + 125 * 1000000)"
  then show "write_html_report_duration_seconds session = 125"
    by (simp add: write_html_report_duration_seconds_def py_int_total_seconds_bounded)
next
  show "get_report_duration_seconds session_doc =
        write_html_report_duration_seconds (session_obj sid session_doc)"
    by (simp add: get_report_duration_seconds_def write_html_report_duration_seconds_def
          session_obj_def split: option.splits)
next
  assume "get_report db sid saved = Inr r"
  then show "\<exists>doc. find_one_session db sid = Some doc
           \<and> interview_duration_seconds r =
               write_html_report_duration_seconds (session_obj sid doc)"
    by (auto simp: get_report_def get_report_duration_seconds_def
          write_html_report_duration_seconds_def session_obj_def
          split: option.splits sum.splits)
qed

theorem duration_seconds_truncates_witness:
  "end_time ended_session = Some 165500000 \<and> start_time ended_session \<le> 165500000
   \<and> 165500000 - start_time ended_session < 2 ^ 34 * 1000000
   \<and> write_html_report_duration_seconds ended_session = 125
   \<and> end_time late_start_session = Some 0 \<and> 0 < start_time late_start_session
   \<and> start_time late_start_session - 0 < 2 ^ 34 * 1000000
   \<and> write_html_report_duration_seconds late_start_session = - 1
   \<and> end_time (ended_session\<lparr>end_time := None\<rparr>) = None
   \<and> write_html_report_duration_seconds (ended_session\<lparr>end_time := None\<rparr>) = 0"
proof -
  have a: "end_time ended_session = Some 165500000 \<and> start_time ended_session \<le> 165500000
      \<and> 165500000 - start_time ended_session < 2 ^ 34 * 1000000"
    by (simp add: ended_session_def)
  have b: "end_time late_start_session = Some 0 \<and> 0 < start_time late_start_session
      \<and> start_time late_start_session - 0 < 2 ^ 34 * 1000000"
    by (simp add: late_start_session_def)
  have c: "end_time (ended_session\<lparr>end_time := None\<rparr>) = None" by simp
  from duration_seconds_truncates [of ended_session 165500000, THEN conjunct2, THEN conjunct1,
      rule_format, OF a]
  have a': "write_html_report_duration_seconds ended_session = 125"
    by (simp add: ended_session_def)
  from duration_seconds_truncates [of late_start_session 0, THEN conjunct2, THEN conjunct2,
      THEN conjunct1, rule_format, OF b]
  have b': "write_html_report_duration_seconds late_start_session = - 1"
    by (simp add: late_start_session_def)
  from duration_seconds_truncates [of "ended_session\<lparr>end_time := None\<rparr>", THEN conjunct1,
      rule_format, OF c]
  have c': "write_html_report_duration_seconds (ended_session\<lparr>end_time := None\<rparr>) = 0" .
  from a b c a' b' c' show ?thesis by simp
qed

text \<open>
  C5 as stated fails in two ways. For an end time before the start time: a session that
  ends 1.5 seconds before it starts has duration \<open>-1\<close>, and the floor of the difference
  is \<open>-2\<close>. For a start and an end far apart: a session that ends 34359738367.999999
  seconds after it starts has duration 34359738368, the double nearest to the quotient,
  and the floor of the difference is 34359738367.
\<close>

theorem duration_floor_counterexample:
  "write_html_report_duration_seconds late_start_session = - 1
   \<and> \<lfloor>real_of_int (0 - start_time late_start_session) / 1000000\<rfloor> = - 2
   \<and> start_time long_session \<le> 34359738367999999
   \<and> write_html_report_duration_seconds long_session = 34359738368
   \<and> \<lfloor>real_of_int (34359738367999999 - start_time long_session) / 1000000\<rfloor> = 34359738367"
proof (intro conjI)
  show "write_html_report_duration_seconds late_start_session = - 1"
    by (simp add: write_html_report_duration_seconds_def late_start_session_def
          py_int_total_seconds_bounded)
  show "\<lfloor>real_of_int (0 - start_time late_start_session) / 1000000\<rfloor> = - 2"
    by (simp only: floor_micro) (simp add: late_start_session_def)
  show "start_time long_session \<le> 34359738367999999"
    by (simp add: long_session_def)
  show "write_html_report_duration_seconds long_session = 34359738368"
    using py_int_total_seconds_eval [of 34359738367999999 34] long_exponent long_significand
    by (simp add: write_html_report_duration_seconds_def long_session_def)
  show "\<lfloor>real_of_int (34359738367999999 - start_time long_session) / 1000000\<rfloor> = 34359738367"
    by (simp only: floor_micro) (simp add: long_session_def)
qed

text \<open>
  C6. For every counts dict with values that are not negative,
  \<open>compute_integrity_score\<close> lies between 0 and 100; and for every counts dict, setting
  the count of one key to a value at least as large as its present count (0 for a key
  that is missing), all other entries unchanged, does not raise the score.
\<close>

theorem compute_integrity_score_range_and_monotone:
  "((\<forall>kv\<in>set counts. 0 \<le> snd kv) \<longrightarrow>
      0 \<le> compute_integrity_score counts \<and> compute_integrity_score counts \<le> 100)
   \<and> (dict_get counts k 0 \<le> v \<longrightarrow>
      compute_integrity_score (dict_setitem k v counts) \<le> compute_integrity_score counts)"
proof (intro conjI impI)
  show "0 \<le> compute_integrity_score counts"
    by (simp add: compute_integrity_score_def)
next
  assume "\<forall>kv\<in>set counts. 0 \<le> snd kv"
  then have "0 \<le> penalty counts" by (rule penalty_nonneg)
  then show "compute_integrity_score counts \<le> 100"
    by (simp add: compute_integrity_score_def score_loop_penalty)
next
  assume le: "dict_get counts k 0 \<le> v"
  have "0 \<le> (v - dict_get counts k 0) * dict_get EVENT_WEIGHTS k 0"
    using le weight_nonneg [of k] by simp
  then have "penalty counts \<le> penalty (dict_setitem k v counts)"
    by (simp add: penalty_dict_setitem)
  then show "compute_integrity_score (dict_setitem k v counts) \<le> compute_integrity_score counts"
    by (simp add: compute_integrity_score_def score_loop_penalty)
qed

theorem compute_integrity_score_range_and_monotone_witness:
  "list_all (\<lambda>kv. 0 \<le> snd kv) [(''no_face'', 3::int), (''phone_detected'', 1)]
   \<and> 0 \<le> compute_integrity_score [(''no_face'', 3), (''phone_detected'', 1)]
   \<and> compute_integrity_score [(''no_face'', 3), (''phone_detected'', 1)] \<le> 100
   \<and> dict_get [(''no_face'', 3::int), (''phone_detected'', 1)] ''no_face'' 0 \<le> 4
   \<and> compute_integrity_score (dict_setitem ''no_face'' 4 [(''no_face'', 3), (''phone_detected'', 1)])
       \<le> compute_integrity_score [(''no_face'', 3), (''phone_detected'', 1)]"
proof -
  have h1: "\<forall>kv\<in>set [(''no_face'', 3::int), (''phone_detected'', 1)]. 0 \<le> snd kv" by simp
  have h2: "dict_get [(''no_face'', 3::int), (''phone_detected'', 1)] ''no_face'' 0 \<le> 4"
    by (simp add: dict_get_def)
  note t = compute_integrity_score_range_and_monotone
      [of "[(''no_face'', 3), (''phone_detected'', 1)]" "''no_face''" 4]
  from t h1 h2 show ?thesis by (simp add: list_all_iff)
qed

text \<open>
  C7. Two lists of events that are permutations of each other give the same result of
  \<open>summarize_events\<close>, keys and counts in the same order. The function reads its
  argument and updates only the dict it creates, which is what its translation into a
  function of the event list expresses.
\<close>

theorem summarize_events_order_independent:
  "mset xs = mset ys \<Longrightarrow> summarize_events xs = summarize_events ys"
proof -
  assume "mset xs = mset ys"
  then have "count_type k xs = count_type k ys" for k
    by (rule count_type_mset)
  then show ?thesis by (simp add: summarize_events_counts)
qed

theorem summarize_events_order_independent_witness:
  "mset [event_of_type ''no_face'', event_of_type ''phone_detected''] =
     mset [event_of_type ''phone_detected'', event_of_type ''no_face'']
   \<and> summarize_events [event_of_type ''no_face'', event_of_type ''phone_detected''] =
     summarize_events [event_of_type ''phone_detected'', event_of_type ''no_face'']"
proof -
  have m: "mset [event_of_type ''no_face'', event_of_type ''phone_detected''] =
     mset [event_of_type ''phone_detected'', event_of_type ''no_face'']"
    by (simp add: add_mset_commute)
  from m summarize_events_order_independent [OF m] show ?thesis by (rule conjI)
qed

text \<open>
  C8, as amended. \<open>end_session\<close> answers 404 and leaves the database as it is when the
  session does not exist, and it writes an end time only when the document it read has
  none. When the handlers run one at a time, a second call after a first one changes
  nothing and gives the first call's answer, and an end time that is set stays the same
  through every sequence of requests. When handlers overlap at their awaits, an end
  time that is set stays the same under every schedule as long as no \<open>end_session\<close>
  that read the session before the end time was set is still suspended; in particular
  when no handler is in flight at the moment it is set.
\<close>

theorem end_session_sets_end_time_once:
  "end_session_after_find db sid None now =
      (db, Inl (HTTPException 404 ''Session not found''))
   \<and> (find_one_session db sid = None \<longrightarrow>
      end_session db sid now = (db, Inl (HTTPException 404 ''Session not found'')))
   \<and> (doc_end_time found \<noteq> None \<longrightarrow>
      end_session_after_find db sid (Some found) now = (db, Inr (session_response sid found)))
   \<and> (find_one_session db sid = Some doc \<and> doc_end_time found = None \<longrightarrow>
      has_end_time (fst (end_session_after_find db sid (Some found) now)) sid now)
   \<and> (find_one_session db sid = Some doc \<and> doc_end_time doc = None \<longrightarrow>
      end_session db sid now =
        (db\<lparr>sessions_collection :=
              (sessions_collection db)(sid \<mapsto> doc\<lparr>doc_end_time := Some now\<rparr>)\<rparr>,
         Inr (session_response sid (doc\<lparr>doc_end_time := Some now\<rparr>))))
   \<and> end_session (fst (end_session db sid now)) sid now' =
        (fst (end_session db sid now), snd (end_session db sid now))
   \<and> (has_end_time db sid t \<longrightarrow> has_end_time (serve db requests) sid t)
   \<and> (server_suspended s = [] \<longrightarrow>
        server_db (run s (one_at_a_time requests)) = serve (server_db s) requests)
   \<and> (settled s sid t \<longrightarrow> settled (run s actions) sid t)
   \<and> (has_end_time (server_db s) sid t \<and> server_suspended s = [] \<longrightarrow>
        has_end_time (server_db (run s actions)) sid t)"
proof (intro conjI impI)
  show "end_session_after_find db sid None now =
      (db, Inl (HTTPException 404 ''Session not found''))"
    by (simp add: end_session_after_find_def)
next
  assume "find_one_session db sid = None"
  then show "end_session db sid now = (db, Inl (HTTPException 404 ''Session not found''))"
    by (simp add: end_session_def end_session_after_find_def)
next
  assume "doc_end_time found \<noteq> None"
  then show "end_session_after_find db sid (Some found) now =
      (db, Inr (session_response sid found))"
    by (auto simp: end_session_after_find_def)
next
  assume "find_one_session db sid = Some doc \<and> doc_end_time found = None"
  then show "has_end_time (fst (end_session_after_find db sid (Some found) now)) sid now"
    by (simp add: end_session_after_find_sets)
next
  assume "find_one_session db sid = Some doc \<and> doc_end_time doc = None"
  then show "end_session db sid now =
        (db\<lparr>sessions_collection :=
              (sessions_collection db)(sid \<mapsto> doc\<lparr>doc_end_time := Some now\<rparr>)\<rparr>,
         Inr (session_response sid (doc\<lparr>doc_end_time := Some now\<rparr>)))"
    by (simp add: end_session_def end_session_after_find_def update_one_session_found)
next
  show "end_session (fst (end_session db sid now)) sid now' =
        (fst (end_session db sid now), snd (end_session db sid now))"
  proof (cases "find_one_session db sid")
    case None
    then show ?thesis by (simp add: end_session_def end_session_after_find_def)
  next
    case (Some d)
    show ?thesis
    proof (cases "doc_end_time d")
      case None
      with Some show ?thesis
        by (simp add: end_session_def end_session_after_find_def update_one_session_found
              find_one_session_def)
    next
      case (Some t')
      with \<open>find_one_session db sid = Some d\<close> show ?thesis
        by (simp add: end_session_def end_session_after_find_def)
    qed
  qed
next
  assume "has_end_time db sid t"
  then show "has_end_time (serve db requests) sid t" by (rule serve_keeps_end_time)
next
  assume "server_suspended s = []"
  then show "server_db (run s (one_at_a_time requests)) = serve (server_db s) requests"
    by (simp add: run_one_at_a_time)
next
  assume "settled s sid t"
  then show "settled (run s actions) sid t" by (rule run_keeps_settled)
next
  assume "has_end_time (server_db s) sid t \<and> server_suspended s = []"
  then have "settled s sid t" by (simp add: settled_def)
  then have "settled (run s actions) sid t" by (rule run_keeps_settled)
  then show "has_end_time (server_db (run s actions)) sid t" by (simp add: settled_def)
qed

theorem end_session_sets_end_time_once_witness:
  "find_one_session example_db ''nobody'' = None
   \<and> end_session example_db ''nobody'' 90000000 =
       (example_db, Inl (HTTPException 404 ''Session not found''))
   \<and> doc_end_time example_doc \<noteq> None
   \<and> end_session_after_find example_db ''s1'' (Some example_doc) 90000000 =
       (example_db, Inr (session_response ''s1'' example_doc))
   \<and> find_one_session example_db ''s2'' = Some open_doc \<and> doc_end_time open_doc = None
   \<and> has_end_time (fst (end_session_after_find example_db ''s2'' (Some open_doc) 90000000))
        ''s2'' 90000000
   \<and> has_end_time example_db ''s1'' 165500000
   \<and> has_end_time
        (serve example_db
           [EndSession ''s1'' 999000000, UploadVideo ''s1'' (Inr ''videos/s1.webm''),
            EndSession ''s2'' 90000000, CreateSession ''Alan'' ''s1'' 5])
        ''s1'' 165500000
   \<and> server_suspended example_server = []
   \<and> has_end_time (server_db example_server) ''s1'' 165500000
   \<and> has_end_time
        (server_db (run example_server
           [Start 1 (EndSession ''s1'' 999000000), Start 2 (UploadVideo ''s1'' (Inr ''videos/s1.webm'')),
            Start 3 (EndSession ''s1'' 999000001), Resume 3, Resume 2, Resume 1]))
        ''s1'' 165500000"
proof -
  have a: "find_one_session example_db ''nobody'' = None" by (rule example_db_lookup)
  have b: "find_one_session example_db ''s2'' = Some open_doc \<and> doc_end_time open_doc = None"
    by (simp add: example_db_lookup open_doc_def)
  have c: "doc_end_time example_doc \<noteq> None" by (simp add: example_doc_def)
  have d: "has_end_time example_db ''s1'' 165500000"
    by (simp add: has_end_time_def example_db_lookup example_doc_def)
  have e: "has_end_time (server_db example_server) ''s1'' 165500000
      \<and> server_suspended example_server = []"
    using d by (simp add: example_server_def)
  note th = end_session_sets_end_time_once
  note t1 = th [where db = example_db and sid = "''nobody''" and now = 90000000,
      THEN conjunct2, THEN conjunct1, rule_format, OF a]
  note t2 = th [where db = example_db and sid = "''s1''" and found = example_doc
      and now = 90000000, THEN conjunct2, THEN conjunct2, THEN conjunct1, rule_format, OF c]
  note t3 = th [where db = example_db and sid = "''s2''" and doc = open_doc
      and found = open_doc and now = 90000000,
      THEN conjunct2, THEN conjunct2, THEN conjunct2, THEN conjunct1, rule_format, OF b]
  note t4 = th [where db = example_db and sid = "''s1''" and t = 165500000,
      THEN conjunct2, THEN conjunct2, THEN conjunct2, THEN conjunct2, THEN conjunct2,
      THEN conjunct2, THEN conjunct1, rule_format, OF d]
  note t5 = th [where s = example_server and sid = "''s1''" and t = 165500000,
      THEN conjunct2, THEN conjunct2, THEN conjunct2, THEN conjunct2, THEN conjunct2,
      THEN conjunct2, THEN conjunct2, THEN conjunct2, THEN conjunct2, rule_format, OF e]
  from a b c d e t1 t2 t3 t4 t5 show ?thesis by blast
qed

text \<open>
  C8 as stated fails when two calls of \<open>end_session\<close> overlap: both read the session
  before either writes, the first sets the end time, and the second, resumed after
  that, replaces it.
\<close>

theorem overlapping_end_session_counterexample:
  "has_end_time (server_db (run example_server overlapping_ends)) ''s2'' 90000000
   \<and> has_end_time (server_db (run example_server (overlapping_ends @ [Resume 2]))) ''s2'' 95000000"
proof
  show "has_end_time (server_db (run example_server overlapping_ends)) ''s2'' 90000000"
    by (simp add: overlapping_ends_run end_s2)
  have r: "run example_server (overlapping_ends @ [Resume 2]) =
      step (run example_server overlapping_ends) (Resume 2)"
    by (simp add: overlapping_ends_def)
  have d: "server_db (run example_server (overlapping_ends @ [Resume 2])) =
      fst (end_session_after_find (fst (end_session example_db ''s2'' 90000000)) ''s2''
             (Some open_doc) 95000000)"
    unfolding r by (simp add: overlapping_ends_run)
  from end_s2 [of 90000000]
  obtain doc where f: "find_one_session (fst (end_session example_db ''s2'' 90000000)) ''s2'' = Some doc"
    by (auto simp: has_end_time_def split: option.splits)
  have n: "doc_end_time open_doc = None" by (simp add: open_doc_def)
  show "has_end_time (server_db (run example_server (overlapping_ends @ [Resume 2])))
      ''s2'' 95000000"
    unfolding d using f n by (rule end_session_after_find_sets)
qed

text \<open>
  C9. For every counts dict, the aggregate suspicious-event count is the sum of the four
  counts multiple_faces, phone_detected, notes_detected and device_detected: changing
  the count of looking_away, focus_lost or no_face does not change it, while it does
  change the score before clamping, by 2, 2 and 5 per event. In the response of
  \<open>get_report\<close> the aggregate is the sum of the four counts of the response, and the
  number of the session's events of these four types.
\<close>

theorem suspicious_total_four_categories:
  "suspicious_total counts =
     dict_get counts ''multiple_faces'' 0 + dict_get counts ''phone_detected'' 0 +
     dict_get counts ''notes_detected'' 0 + dict_get counts ''device_detected'' 0
   \<and> (k = ''looking_away'' \<or> k = ''focus_lost'' \<or> k = ''no_face'' \<longrightarrow>
        suspicious_total (dict_setitem k v counts) = suspicious_total counts)
   \<and> score_loop 100 (dict_setitem ''looking_away'' v counts) =
        score_loop 100 counts - (v - dict_get counts ''looking_away'' 0) * 2
   \<and> score_loop 100 (dict_setitem ''focus_lost'' v counts) =
        score_loop 100 counts - (v - dict_get counts ''focus_lost'' 0) * 2
   \<and> score_loop 100 (dict_setitem ''no_face'' v counts) =
        score_loop 100 counts - (v - dict_get counts ''no_face'' 0) * 5
   \<and> (get_report db sid saved = Inr r \<longrightarrow>
        suspicious_events_count r =
          multiple_faces_count r + phone_detected_count r + notes_detected_count r +
          device_detected_count r
        \<and> suspicious_events_count r =
          int (length (filter (\<lambda>e. event_type e \<in> set SUSPICIOUS) (find_events db sid))))"
proof (intro conjI impI)
  show "suspicious_total counts =
     dict_get counts ''multiple_faces'' 0 + dict_get counts ''phone_detected'' 0 +
     dict_get counts ''notes_detected'' 0 + dict_get counts ''device_detected'' 0"
    by (simp add: suspicious_total_def)
next
  assume "k = ''looking_away'' \<or> k = ''focus_lost'' \<or> k = ''no_face''"
  then show "suspicious_total (dict_setitem k v counts) = suspicious_total counts"
    by (auto simp: suspicious_total_def dict_get_setitem_other)
next
  show "score_loop 100 (dict_setitem ''looking_away'' v counts) =
        score_loop 100 counts - (v - dict_get counts ''looking_away'' 0) * 2"
    by (simp add: score_loop_penalty penalty_dict_setitem weight_cases)
next
  show "score_loop 100 (dict_setitem ''focus_lost'' v counts) =
        score_loop 100 counts - (v - dict_get counts ''focus_lost'' 0) * 2"
    by (simp add: score_loop_penalty penalty_dict_setitem weight_cases)
next
  show "score_loop 100 (dict_setitem ''no_face'' v counts) =
        score_loop 100 counts - (v - dict_get counts ''no_face'' 0) * 5"
    by (simp add: score_loop_penalty penalty_dict_setitem weight_cases)
next
  assume "get_report db sid saved = Inr r"
  then obtain cs where cs: "summarize_events (find_events db sid) = Inr cs"
    and r: "suspicious_events_count r = suspicious_total cs"
       "multiple_faces_count r = dict_get cs ''multiple_faces'' 0"
       "phone_detected_count r = dict_get cs ''phone_detected'' 0"
       "notes_detected_count r = dict_get cs ''notes_detected'' 0"
       "device_detected_count r = dict_get cs ''device_detected'' 0"
    by (auto simp: get_report_def split: option.splits sum.splits)
  from r show "suspicious_events_count r =
          multiple_faces_count r + phone_detected_count r + notes_detected_count r +
          device_detected_count r"
    by (simp add: suspicious_total_def)
  from cs r(1) show "suspicious_events_count r =
          int (length (filter (\<lambda>e. event_type e \<in> set SUSPICIOUS) (find_events db sid)))"
    by (simp add: suspicious_total_summarized)
qed

theorem suspicious_total_four_categories_witness:
  "suspicious_total (dict_setitem ''looking_away'' 9 initial_counts) =
     suspicious_total initial_counts
   \<and> get_report example_db ''s1'' (Inr ''reports/report_s1.html'') =
     Inr \<lparr>report_candidate_name = ''Ada'', report_session_id = ''s1'',
          interview_duration_seconds = 125, focus_lost_count = 0,
          looking_away_count = 1, no_face_segments = 0,
          multiple_faces_count = 0, phone_detected_count = 1,
          notes_detected_count = 0, device_detected_count = 0,
          suspicious_events_count = 1, integrity_score = 88\<rparr>
   \<and> int (length (filter (\<lambda>e. event_type e \<in> set SUSPICIOUS) (find_events example_db ''s1''))) = 1"
proof -
  note r = example_db_report
  note t = suspicious_total_four_categories
      [where k = "''looking_away''" and db = example_db and sid = "''s1''"
         and saved = "Inr ''reports/report_s1.html''" and counts = initial_counts and v = 9]
  from t [THEN conjunct2, THEN conjunct1]
  have a: "suspicious_total (dict_setitem ''looking_away'' 9 initial_counts) =
     suspicious_total initial_counts" by simp
  from t [THEN conjunct2, THEN conjunct2, THEN conjunct2, THEN conjunct2, THEN conjunct2,
      rule_format, OF r, THEN conjunct2]
  have b: "int (length (filter (\<lambda>e. event_type e \<in> set SUSPICIOUS) (find_events example_db ''s1''))) = 1"
    by simp
  from a r b show ?thesis by simp
qed

text \<open>
  C10. On the remote backend, \<open>open_bytes\<close> reads a key with a \<open>/\<close> whose part before the
  first \<open>/\<close> is not exactly \<open>reports\<close> from the videos bucket, under the name after
  that \<open>/\<close>: \<open>videos/name\<close> and \<open>foo/name\<close> alike. A key that starts with \<open>reports/\<close>
  is read from the reports bucket, and a key with no \<open>/\<close> is read from the reports
  bucket under the whole key.
\<close>

theorem DetaStorage_open_bytes_routing:
  "(CHR ''/'' \<notin> set prefix \<and> prefix \<noteq> ''reports'' \<longrightarrow>
      DetaStorage_bucket self (prefix @ ''/'' @ name) = Inr (videos self, name)
      \<and> DetaStorage_open_bytes self (prefix @ ''/'' @ name) =
          (case Drive_get (videos self) name of None \<Rightarrow> Inl TypeError | Some data \<Rightarrow> Inr data))
   \<and> DetaStorage_open_bytes self (''reports/'' @ name) =
        (case Drive_get (reports self) name of None \<Rightarrow> Inl TypeError | Some data \<Rightarrow> Inr data)
   \<and> (CHR ''/'' \<notin> set key \<longrightarrow>
      DetaStorage_bucket self key = Inr (reports self, key)
      \<and> DetaStorage_open_bytes self key =
          (case Drive_get (reports self) key of None \<Rightarrow> Inl TypeError | Some data \<Rightarrow> Inr data))
   \<and> DetaStorage_bucket self (''videos/'' @ name) = Inr (videos self, name)
   \<and> DetaStorage_bucket self (''foo/'' @ name) = Inr (videos self, name)"
proof (intro conjI impI)
  assume a: "CHR ''/'' \<notin> set prefix \<and> prefix \<noteq> ''reports''"
  then show b: "DetaStorage_bucket self (prefix @ ''/'' @ name) = Inr (videos self, name)"
    using bucket_prefix [of prefix self name] by simp
  show "DetaStorage_open_bytes self (prefix @ ''/'' @ name) =
          (case Drive_get (videos self) name of None \<Rightarrow> Inl TypeError | Some data \<Rightarrow> Inr data)"
    unfolding DetaStorage_open_bytes_def b by simp
next
  have "DetaStorage_bucket self (''reports'' @ ''/'' @ name) = Inr (reports self, name)"
    by (subst bucket_prefix) simp_all
  then show "DetaStorage_open_bytes self (''reports/'' @ name) =
        (case Drive_get (reports self) name of None \<Rightarrow> Inl TypeError | Some data \<Rightarrow> Inr data)"
    by (simp add: DetaStorage_open_bytes_def)
next
  assume a: "CHR ''/'' \<notin> set key"
  then show b: "DetaStorage_bucket self key = Inr (reports self, key)"
    by (rule bucket_no_slash)
  show "DetaStorage_open_bytes self key =
          (case Drive_get (reports self) key of None \<Rightarrow> Inl TypeError | Some data \<Rightarrow> Inr data)"
    unfolding DetaStorage_open_bytes_def b by simp
next
  have "DetaStorage_bucket self (''videos'' @ ''/'' @ name) = Inr (videos self, name)"
    by (subst bucket_prefix) simp_all
  then show "DetaStorage_bucket self (''videos/'' @ name) = Inr (videos self, name)" by simp
next
  have "DetaStorage_bucket self (''foo'' @ ''/'' @ name) = Inr (videos self, name)"
    by (subst bucket_prefix) simp_all
  then show "DetaStorage_bucket self (''foo/'' @ name) = Inr (videos self, name)" by simp
qed

theorem DetaStorage_open_bytes_routing_witness:
  "CHR ''/'' \<notin> set ''foo'' \<and> ''foo'' \<noteq> ''reports''
   \<and> DetaStorage_open_bytes filled_deta ''foo/clip.webm'' = Inr [7]
   \<and> CHR ''/'' \<notin> set ''clip.webm''
   \<and> DetaStorage_open_bytes filled_deta ''clip.webm'' = Inr [9]"
proof -
  have a: "CHR ''/'' \<notin> set ''foo'' \<and> ''foo'' \<noteq> ''reports''" by simp
  have b: "CHR ''/'' \<notin> set ''clip.webm''" by simp
  from DetaStorage_open_bytes_routing [where prefix = "''foo''" and self = filled_deta
        and name = "''clip.webm''", THEN conjunct1,
      rule_format, OF a, THEN conjunct2]
  have a': "DetaStorage_open_bytes filled_deta ''foo/clip.webm'' = Inr [7]"
    by (simp add: Drive_get_def filled_deta_def)
  from DetaStorage_open_bytes_routing [where self = filled_deta and key = "''clip.webm''", THEN conjunct2,
      THEN conjunct2, THEN conjunct1, rule_format, OF b, THEN conjunct2]
  have b': "DetaStorage_open_bytes filled_deta ''clip.webm'' = Inr [9]"
    by (simp add: Drive_get_def filled_deta_def)
  from a b a' b' show ?thesis by simp
qed

end
